theory Spec2Isabelle
  imports Complex_Main "HOL-Library.Char_ord" "HOL-Library.List_Lexorder"
begin

section \<open>Data model\<close>

text \<open>
  The program is \<^verbatim>\<open>alternative_imputers/mice_i.py\<close>: four MICE imputers over pandas
  DataFrames. A DataFrame is modelled with its row labels (the pandas index) and its
  columns in order, each column carrying its label and its cells. A column is either
  numeric (\<^verbatim>\<open>is_numeric_dtype\<close> holds) or not (object dtype); a missing cell (NaN) is
  \<open>None\<close>. A cell of an object column holds a string or, once a cell-level prediction
  has been stored in it, the array of strings that \<^verbatim>\<open>predict\<close> returned. Column labels
  are taken to be unique, so that \<^verbatim>\<open>df[name]\<close> is the column at the position of \<open>name\<close>;
  every column is as long as the index.

  Floats are idealised as reals: a sum, a mean or a squared error below is the exact
  number where the program computes an IEEE double, so an equation between computed
  numbers is exact only where the doubles are (as in the examples of this theory).
\<close>

datatype error = TypeError | KeyError | ValueError | IndexError | LightGBMError

datatype obj = Str string | NdArray "string list"

datatype column = Numeric "real option list" | Categorical "obj option list"

record dataframe =
  index :: "int list"
  columns :: "(string \<times> column) list"

fun is_numeric_dtype :: "column \<Rightarrow> bool" where
  "is_numeric_dtype (Numeric xs) = True"
| "is_numeric_dtype (Categorical xs) = False"

fun column_length :: "column \<Rightarrow> nat" where
  "column_length (Numeric xs) = length xs"
| "column_length (Categorical xs) = length xs"

text \<open>\<^verbatim>\<open>Series.isna()\<close> at one position.\<close>

fun isna :: "column \<Rightarrow> nat \<Rightarrow> bool" where
  "isna (Numeric xs) r = (r < length xs \<and> xs ! r = None)"
| "isna (Categorical xs) r = (r < length xs \<and> xs ! r = None)"

text \<open>
  \<^verbatim>\<open>np.argwhere(df.isna().values).tolist()\<close>: the positions (row, column) of the
  missing cells, in row-major order. Both coordinates are positions, not labels.
\<close>

definition argwhere_isna :: "dataframe \<Rightarrow> (nat \<times> nat) list" where
  "argwhere_isna df =
     concat (map (\<lambda>r. concat (map (\<lambda>c. if isna (snd (columns df ! c)) r then [(r, c)] else [])
                                  [0..<length (columns df)]))
                 [0..<length (index df)])"

text \<open>
  The interpreter state: the DataFrame objects on the heap, addressed by their position
  in the list (a reference is a \<open>nat\<close>), the number of permutations drawn so far from
  numpy's global random state, the number of calls of \<^verbatim>\<open>time()\<close>, the attribute
  \<^verbatim>\<open>self.df_mean\<close>, and a ghost log of the calls of \<^verbatim>\<open>fit\<close>: the target column, the
  row positions trained on and the row positions predicted.
\<close>

record fit_call =
  target :: nat
  train_rows :: "nat list"
  predict_rows :: "nat list"

record state =
  heap :: "dataframe list"
  draws :: nat
  clock_reads :: nat
  df_mean :: "nat option"
  fit_log :: "fit_call list"

text \<open>
  What the program takes from its environment: \<^verbatim>\<open>np.random.permutation\<close> (the k-th
  draw, for a length), the wall clock (the value of the k-th call of \<^verbatim>\<open>time()\<close>) and
  the two LightGBM estimators. A fit takes the training rows and the training target and
  either raises or gives the fitted model, a function from a feature row to a prediction.
  \<open>to_float64\<close> is numpy's conversion of the object in a cell to a float, as
  \<^verbatim>\<open>sklearn\<close>'s input check applies it: the number read (for the string \<^verbatim>\<open>'1'\<close> the
  number 1), or \<open>None\<close> when the conversion raises or does not give a finite number;
  in each of these cases the check raises ValueError.
\<close>

record env =
  permutation :: "nat \<Rightarrow> nat \<Rightarrow> nat list"
  time :: "nat \<Rightarrow> real"
  LGBMRegressor_fit :: "real option list list \<Rightarrow> real option list \<Rightarrow> error + (real option list \<Rightarrow> real)"
  LGBMClassifier_fit :: "real option list list \<Rightarrow> obj option list \<Rightarrow> error + (real option list \<Rightarrow> string)"
  to_float64 :: "obj \<Rightarrow> real option"

section \<open>pandas operations used by the program\<close>

text \<open>\<^verbatim>\<open>df.copy()\<close>: a new object with the same contents.\<close>

definition df_copy :: "state \<Rightarrow> nat \<Rightarrow> state \<times> nat" where
  "df_copy s df = (s\<lparr>heap := heap s @ [heap s ! df]\<rparr>, length (heap s))"

text \<open>\<^verbatim>\<open>df[name] = col\<close> for the column at position \<open>c\<close>: the object is changed in place.\<close>

definition setitem :: "state \<Rightarrow> nat \<Rightarrow> nat \<Rightarrow> column \<Rightarrow> state" where
  "setitem s df c col =
     s\<lparr>heap := (heap s)[df := (heap s ! df)\<lparr>columns :=
          (columns (heap s ! df))[c := (fst (columns (heap s ! df) ! c), col)]\<rparr>]\<rparr>"

definition dropna :: "'a option list \<Rightarrow> 'a list" where
  "dropna xs = concat (map (\<lambda>x. case x of None \<Rightarrow> [] | Some y \<Rightarrow> [y]) xs)"

text \<open>\<^verbatim>\<open>Series.mean()\<close> skips the missing cells; it is NaN when no cell is present.\<close>

definition mean :: "real option list \<Rightarrow> real option" where
  "mean xs = (let ys = dropna xs in
              if ys = [] then None else Some (sum_list ys / real (length ys)))"

text \<open>
  \<^verbatim>\<open>Series.mode()\<close> is not a scalar: it is the Series of the most frequent present
  values, sorted, labelled 0, 1, ... (empty when no cell is present).
\<close>

definition mode :: "('a::linorder) option list \<Rightarrow> 'a list" where
  "mode xs = (let ys = dropna xs; m = fold max (map (count_list ys) ys) 0
              in sort (filter (\<lambda>y. count_list ys y = m) (remdups ys)))"

text \<open>\<^verbatim>\<open>Series.fillna(v)\<close> with a scalar; filling with NaN leaves the cell missing.\<close>

definition fillna_scalar :: "'a option list \<Rightarrow> 'a option \<Rightarrow> 'a option list" where
  "fillna_scalar xs v = map (\<lambda>x. case x of None \<Rightarrow> v | Some y \<Rightarrow> Some y) xs"

text \<open>
  \<^verbatim>\<open>Series.fillna(value)\<close> with a Series \<open>value\<close> labelled 0, 1, ...: pandas aligns
  \<open>value\<close> with the row labels, so a missing cell in the row labelled \<open>l\<close> receives
  \<open>value[l]\<close> when that label exists in \<open>value\<close> and stays missing otherwise.
\<close>

definition fillna_series :: "int list \<Rightarrow> 'a option list \<Rightarrow> 'a list \<Rightarrow> 'a option list" where
  "fillna_series idx xs val =
     map (\<lambda>(l, x). case x of
                     Some y \<Rightarrow> Some y
                   | None \<Rightarrow> if 0 \<le> l \<and> l < int (length val) then Some (val ! nat l) else None)
         (zip idx xs)"

text \<open>\<^verbatim>\<open>s.fillna(s.mean())\<close>; the mean of a column of strings raises.\<close>

fun fillna_mean :: "column \<Rightarrow> error + column" where
  "fillna_mean (Numeric xs) = Inr (Numeric (fillna_scalar xs (mean xs)))"
| "fillna_mean (Categorical xs) = Inl TypeError"

text \<open>
  The values of an object column as pandas hashes them (for \<^verbatim>\<open>mode\<close> and for
  \<^verbatim>\<open>get_dummies\<close>): an array in a cell is not hashable and raises TypeError.
\<close>

fun hashable_values :: "obj list \<Rightarrow> error + string list" where
  "hashable_values [] = Inr []"
| "hashable_values (Str v # xs) =
     (case hashable_values xs of Inl e \<Rightarrow> Inl e | Inr vs \<Rightarrow> Inr (v # vs))"
| "hashable_values (NdArray a # xs) = Inl TypeError"

text \<open>\<^verbatim>\<open>s.fillna(s.mode())\<close> for a column \<open>s\<close> of a frame with row labels \<open>idx\<close>.\<close>

fun fillna_mode :: "int list \<Rightarrow> column \<Rightarrow> error + column" where
  "fillna_mode idx (Numeric xs) = Inr (Numeric (fillna_series idx xs (mode xs)))"
| "fillna_mode idx (Categorical xs) =
     (case hashable_values (dropna xs) of
        Inl e \<Rightarrow> Inl e
      | Inr vs \<Rightarrow> Inr (Categorical (fillna_series idx xs (map Str (mode (map Some vs))))))"

section \<open>Python control flow\<close>

text \<open>
  A \<^verbatim>\<open>for\<close> loop whose body may raise: the first exception ends the loop, and the
  state keeps the effects made so far.
\<close>

fun for_loop :: "('a \<Rightarrow> state \<Rightarrow> state \<times> (error + unit)) \<Rightarrow> 'a list \<Rightarrow> state \<Rightarrow> state \<times> (error + unit)" where
  "for_loop body [] s = (s, Inr ())"
| "for_loop body (x # xs) s =
     (case body x s of
        (s1, Inl e) \<Rightarrow> (s1, Inl e)
      | (s1, Inr u) \<Rightarrow> for_loop body xs s1)"

text \<open>\<^verbatim>\<open>range(n)\<close>, empty for \<open>n \<le> 0\<close>.\<close>

definition py_range :: "int \<Rightarrow> int list" where
  "py_range n = map int [0..<nat n]"

text \<open>
  \<^verbatim>\<open>xs[key]\<close> on a list. The key is an integer (negative ones count from the end) or,
  as in \<^verbatim>\<open>FastMICE.transform\<close>, a name that is bound to a builtin function.
\<close>

datatype subscript = Position int | Builtin string

fun getitem :: "'a list \<Rightarrow> subscript \<Rightarrow> error + 'a" where
  "getitem xs (Position i) =
     (if 0 \<le> i \<and> i < int (length xs) then Inr (xs ! nat i)
      else if i < 0 \<and> - int (length xs) \<le> i then Inr (xs ! nat (int (length xs) + i))
      else Inl IndexError)"
| "getitem xs (Builtin f) = Inl TypeError"

section \<open>BaseMICE.impute_initial_mean_or_mode\<close>

text \<open>
  The body of \<^verbatim>\<open>for column in df\<close>: the dtype is read from \<open>df\<close>, the column is read
  from and written to \<open>df_new\<close>.
\<close>

definition impute_column :: "nat \<Rightarrow> nat \<Rightarrow> nat \<Rightarrow> state \<Rightarrow> state \<times> (error + unit)" where
  "impute_column df df_new c s =
     (case (if is_numeric_dtype (snd (columns (heap s ! df) ! c))
            then fillna_mean (snd (columns (heap s ! df_new) ! c))
            else fillna_mode (index (heap s ! df_new)) (snd (columns (heap s ! df_new) ! c))) of
        Inl e \<Rightarrow> (s, Inl e)
      | Inr filled \<Rightarrow> (setitem s df_new c filled, Inr ()))"

definition impute_initial_mean_or_mode :: "state \<Rightarrow> nat \<Rightarrow> state \<times> (error + nat)" where
  "impute_initial_mean_or_mode s df =
     (case df_copy s df of
        (s1, df_new) \<Rightarrow>
          (case for_loop (impute_column df df_new) [0..<length (columns (heap s1 ! df))] s1 of
             (s2, Inl e) \<Rightarrow> (s2, Inl e)
           | (s2, Inr u) \<Rightarrow> (s2, Inr df_new)))"

section \<open>Fitting and predicting\<close>

text \<open>
  \<^verbatim>\<open>df.drop(columns=names, axis=1)\<close>: a label that is not a column raises KeyError.
\<close>

definition drop_columns :: "string list \<Rightarrow> (string \<times> column) list \<Rightarrow> error + (string \<times> column) list" where
  "drop_columns names cols =
     (if \<exists>n \<in> set names. n \<notin> set (map fst cols) then Inl KeyError
      else Inr (filter (\<lambda>(n, c). n \<notin> set names) cols))"

text \<open>
  \<^verbatim>\<open>pd.get_dummies(X, drop_first=True)\<close>: the numeric columns as they are, then for
  every other column one indicator column per level, the first level (in sorted order)
  dropped. The levels of a column are found by hashing its cells. A frame without any
  column (the target was the only column) leaves nothing to concatenate and raises
  ValueError.
\<close>

definition dummies :: "string \<Rightarrow> obj option list \<Rightarrow> error + (string \<times> real option list) list" where
  "dummies name xs =
     (case hashable_values (dropna xs) of
        Inl e \<Rightarrow> Inl e
      | Inr vs \<Rightarrow>
          Inr (map (\<lambda>level. (name @ ''_'' @ level,
                             map (\<lambda>x. Some (if x = Some (Str level) then 1 else 0)) xs))
                   (tl (sort (remdups vs)))))"

fun encoded :: "(string \<times> column) list \<Rightarrow> error + (string \<times> real option list) list" where
  "encoded [] = Inr []"
| "encoded ((n, Numeric xs) # cols) = encoded cols"
| "encoded ((n, Categorical xs) # cols) =
     (case dummies n xs of
        Inl e \<Rightarrow> Inl e
      | Inr ds \<Rightarrow> (case encoded cols of Inl e \<Rightarrow> Inl e | Inr rest \<Rightarrow> Inr (ds @ rest)))"

definition get_dummies :: "(string \<times> column) list \<Rightarrow> error + (string \<times> real option list) list" where
  "get_dummies cols =
     (if cols = [] then Inl ValueError
      else case encoded cols of
             Inl e \<Rightarrow> Inl e
           | Inr ds \<Rightarrow>
               Inr (concat (map (\<lambda>(n, c). case c of Numeric xs \<Rightarrow> [(n, xs)] | Categorical xs \<Rightarrow> []) cols)
                    @ ds))"

text \<open>
  \<^verbatim>\<open>X.drop(index=labels)\<close> and \<^verbatim>\<open>y.drop(index=labels)\<close> select by row LABEL: the rows
  whose label is in \<open>labels\<close> go, and a label that no row carries raises KeyError. The
  result is given as the list of the row positions that stay.
\<close>

definition drop_index :: "int list \<Rightarrow> int list \<Rightarrow> error + nat list" where
  "drop_index idx labels =
     (if \<exists>l \<in> set labels. l \<notin> set idx then Inl KeyError
      else Inr (filter (\<lambda>p. idx ! p \<notin> set labels) [0..<length idx]))"

text \<open>The rows of a feature matrix, and the cells of a column, at given positions.\<close>

definition iloc_rows :: "(string \<times> real option list) list \<Rightarrow> nat list \<Rightarrow> real option list list" where
  "iloc_rows X rows = map (\<lambda>r. map (\<lambda>(n, xs). xs ! r) X) rows"

fun take_rows :: "nat list \<Rightarrow> column \<Rightarrow> column" where
  "take_rows rows (Numeric xs) = Numeric (map (\<lambda>r. xs ! r) rows)"
| "take_rows rows (Categorical xs) = Categorical (map (\<lambda>r. xs ! r) rows)"

text \<open>\<^verbatim>\<open>X.iloc[a:b, :]\<close> selects by POSITION; a slice never raises.\<close>

definition iloc_slice :: "nat \<Rightarrow> nat \<Rightarrow> nat \<Rightarrow> nat list" where
  "iloc_slice a b n = [a..<min b n]"

text \<open>
  \<^verbatim>\<open>self.get_model(y).fit(X_train, y_train)\<close>: a regressor for a numeric target, a
  classifier otherwise; \<^verbatim>\<open>model.predict(X_pred)\<close> gives one prediction per row.
\<close>

datatype model = Regressor "real option list \<Rightarrow> real" | Classifier "real option list \<Rightarrow> string"

datatype prediction = Reals "real list" | Labels "string list"

fun get_model_fit :: "env \<Rightarrow> real option list list \<Rightarrow> column \<Rightarrow> error + model" where
  "get_model_fit env X_train (Numeric ys) =
     (case LGBMRegressor_fit env X_train ys of Inl e \<Rightarrow> Inl e | Inr f \<Rightarrow> Inr (Regressor f))"
| "get_model_fit env X_train (Categorical ys) =
     (case LGBMClassifier_fit env X_train ys of Inl e \<Rightarrow> Inl e | Inr f \<Rightarrow> Inr (Classifier f))"

fun predict :: "model \<Rightarrow> real option list list \<Rightarrow> prediction" where
  "predict (Regressor f) X_pred = Reals (map f X_pred)"
| "predict (Classifier f) X_pred = Labels (map f X_pred)"

text \<open>
  \<^verbatim>\<open>df.iloc[rows, c] = values\<close>, with a list of rows, writes by POSITION, in place, one
  value per row. A position out of range raises IndexError and a wrong number of values
  ValueError. Values of the other kind than the column would make pandas change the
  column's dtype to object; a mixed column has no counterpart here and the case is
  reported as TypeError (it cannot arise in \<^verbatim>\<open>VanilaMICE.transform\<close>, where the model is
  chosen by the dtype of the column written).
\<close>

definition assign :: "'a option list \<Rightarrow> nat list \<Rightarrow> 'a list \<Rightarrow> 'a option list" where
  "assign xs rows vs = fold (\<lambda>(r, v) ys. ys[r := Some v]) (zip rows vs) xs"

fun assign_cells :: "column \<Rightarrow> nat list \<Rightarrow> prediction \<Rightarrow> error + column" where
  "assign_cells (Numeric xs) rows (Reals vs) =
     (if \<exists>r \<in> set rows. length xs \<le> r then Inl IndexError
      else if length vs \<noteq> length rows then Inl ValueError
      else Inr (Numeric (assign xs rows vs)))"
| "assign_cells (Categorical xs) rows (Labels vs) =
     (if \<exists>r \<in> set rows. length xs \<le> r then Inl IndexError
      else if length vs \<noteq> length rows then Inl ValueError
      else Inr (Categorical (assign xs rows (map Str vs))))"
| "assign_cells (Numeric xs) rows (Labels vs) = Inl TypeError"
| "assign_cells (Categorical xs) rows (Reals vs) = Inl TypeError"

definition iloc_setitem :: "state \<Rightarrow> nat \<Rightarrow> nat list \<Rightarrow> nat \<Rightarrow> prediction \<Rightarrow> state \<times> (error + unit)" where
  "iloc_setitem s df rows c values =
     (if length (columns (heap s ! df)) \<le> c then (s, Inl IndexError)
      else case assign_cells (snd (columns (heap s ! df) ! c)) rows values of
             Inl e \<Rightarrow> (s, Inl e)
           | Inr col \<Rightarrow> (setitem s df c col, Inr ()))"

text \<open>
  \<^verbatim>\<open>df.iloc[r, c] = values\<close>, with one row and one column, where \<open>values\<close> is the array
  that \<^verbatim>\<open>predict\<close> returned for one row. A float column takes the number out of the
  one-element array. An object column stores the object it is given: the cell then
  holds the array itself, not the string in it.
\<close>

fun store :: "column \<Rightarrow> nat \<Rightarrow> prediction \<Rightarrow> error + column" where
  "store (Numeric xs) r (Reals vs) =
     (if length xs \<le> r then Inl IndexError
      else case vs of [v] \<Rightarrow> Inr (Numeric (xs[r := Some v])) | _ \<Rightarrow> Inl ValueError)"
| "store (Categorical xs) r (Labels vs) =
     (if length xs \<le> r then Inl IndexError
      else Inr (Categorical (xs[r := Some (NdArray vs)])))"
| "store (Numeric xs) r (Labels vs) = Inl TypeError"
| "store (Categorical xs) r (Reals vs) = Inl TypeError"

definition iloc_setitem_cell :: "state \<Rightarrow> nat \<Rightarrow> nat \<Rightarrow> nat \<Rightarrow> prediction \<Rightarrow> state \<times> (error + unit)" where
  "iloc_setitem_cell s df r c values =
     (if length (columns (heap s ! df)) \<le> c then (s, Inl IndexError)
      else case store (snd (columns (heap s ! df) ! c)) r values of
             Inl e \<Rightarrow> (s, Inl e)
           | Inr col \<Rightarrow> (setitem s df c col, Inr ()))"

definition log_fit :: "state \<Rightarrow> nat \<Rightarrow> nat list \<Rightarrow> nat list \<Rightarrow> state" where
  "log_fit s c train rows =
     s\<lparr>fit_log := fit_log s @ [\<lparr>target = c, train_rows = train, predict_rows = rows\<rparr>]\<rparr>"

section \<open>The transforms\<close>

text \<open>
  The body of the loop of \<^verbatim>\<open>VanilaMICE.transform\<close> for one drawn \<open>i\<close> (the source calls
  it \<^verbatim>\<open>id\<close>): one missing cell is predicted from a model trained on
  \<^verbatim>\<open>X.drop(index=row_id)\<close>, \<^verbatim>\<open>y.drop(index=row_id)\<close>. The \<^verbatim>\<open>tqdm\<close> wrapper of the
  loop only draws a progress bar (it is the one use of \<^verbatim>\<open>iter_id\<close> and \<^verbatim>\<open>max_iter\<close> in the
  two plain transforms) and is left out.
\<close>

definition VanilaMICE_body :: "env \<Rightarrow> nat \<Rightarrow> (nat \<times> nat) list \<Rightarrow> nat \<Rightarrow> state \<Rightarrow> state \<times> (error + unit)" where
  "VanilaMICE_body env df nan_ids i s =
     (case getitem nan_ids (Position (int i)) of
        Inl e \<Rightarrow> (s, Inl e)
      | Inr (row_id, col_id) \<Rightarrow>
          if length (columns (heap s ! df)) \<le> col_id then (s, Inl IndexError)
          else
            (let target_column_name = fst (columns (heap s ! df) ! col_id) in
             case drop_columns [target_column_name] (columns (heap s ! df)) of
               Inl e \<Rightarrow> (s, Inl e)
             | Inr Xc \<Rightarrow>
                 (case get_dummies Xc of
                    Inl e \<Rightarrow> (s, Inl e)
                  | Inr X \<Rightarrow>
                      (let y = snd (columns (heap s ! df) ! col_id);
                           rows = iloc_slice row_id (row_id + 1) (length (index (heap s ! df)))
                       in case drop_index (index (heap s ! df)) [int row_id] of
                            Inl e \<Rightarrow> (s, Inl e)
                          | Inr train \<Rightarrow>
                              (case get_model_fit env (iloc_rows X train) (take_rows train y) of
                                 Inl e \<Rightarrow> (log_fit s col_id train rows, Inl e)
                               | Inr m \<Rightarrow>
                                   iloc_setitem_cell (log_fit s col_id train rows) df row_id col_id
                                     (predict m (iloc_rows X rows)))))))"

definition VanilaMICE_transform ::
  "env \<Rightarrow> int \<Rightarrow> state \<Rightarrow> nat \<Rightarrow> (string \<times> nat) list \<Rightarrow> (nat \<times> nat) list \<Rightarrow> int \<Rightarrow> state \<times> (error + nat)" where
  "VanilaMICE_transform env max_iter s df columns_missing nan_ids iter_id =
     (let random_ids = permutation env (draws s) (length nan_ids) in
      case for_loop (VanilaMICE_body env df nan_ids) random_ids (s\<lparr>draws := Suc (draws s)\<rparr>) of
        (s1, Inl e) \<Rightarrow> (s1, Inl e)
      | (s1, Inr u) \<Rightarrow> (s1, Inr df))"

text \<open>
  The body of the loop of \<^verbatim>\<open>FastMICE.transform\<close> for one drawn \<open>column_id\<close>. Its first
  statement is \<^verbatim>\<open>row_id, col_id = nan_ids[id]\<close>, and in this function \<^verbatim>\<open>id\<close> is not a
  local variable (the \<^verbatim>\<open>id\<close> of the list comprehension below is local to the
  comprehension): it is Python's builtin function. The statements after it are modelled
  as they are written.
\<close>

definition FastMICE_body :: "env \<Rightarrow> nat \<Rightarrow> (nat \<times> nat) list \<Rightarrow> nat \<Rightarrow> state \<Rightarrow> state \<times> (error + unit)" where
  "FastMICE_body env df nan_ids column_id s =
     (case getitem nan_ids (Builtin ''id'') of
        Inl e \<Rightarrow> (s, Inl e)
      | Inr (row_id, col_id) \<Rightarrow>
          if length (columns (heap s ! df)) \<le> col_id then (s, Inl IndexError)
          else
            (let target_column_name = fst (columns (heap s ! df) ! col_id) in
             case drop_columns [target_column_name] (columns (heap s ! df)) of
               Inl e \<Rightarrow> (s, Inl e)
             | Inr Xc \<Rightarrow>
                 (case get_dummies Xc of
                    Inl e \<Rightarrow> (s, Inl e)
                  | Inr X \<Rightarrow>
                      (let y = snd (columns (heap s ! df) ! col_id);
                           column_nan_ids = map fst (filter (\<lambda>p. snd p = column_id) nan_ids)
                       in case drop_index (index (heap s ! df)) (map int column_nan_ids) of
                            Inl e \<Rightarrow> (s, Inl e)
                          | Inr train \<Rightarrow>
                              (case get_model_fit env (iloc_rows X train) (take_rows train y) of
                                 Inl e \<Rightarrow> (log_fit s col_id train column_nan_ids, Inl e)
                               | Inr m \<Rightarrow>
                                   if \<exists>r \<in> set column_nan_ids. length (index (heap s ! df)) \<le> r
                                   then (log_fit s col_id train column_nan_ids, Inl IndexError)
                                   else iloc_setitem (log_fit s col_id train column_nan_ids) df
                                          column_nan_ids column_id
                                          (predict m (iloc_rows X column_nan_ids)))))))"

definition FastMICE_transform ::
  "env \<Rightarrow> int \<Rightarrow> state \<Rightarrow> nat \<Rightarrow> (string \<times> nat) list \<Rightarrow> (nat \<times> nat) list \<Rightarrow> int \<Rightarrow> state \<times> (error + nat)" where
  "FastMICE_transform env max_iter s df columns_missing nan_ids iter_id =
     (let random_ids = permutation env (draws s) (length nan_ids) in
      case for_loop (FastMICE_body env df nan_ids) random_ids (s\<lparr>draws := Suc (draws s)\<rparr>) of
        (s1, Inl e) \<Rightarrow> (s1, Inl e)
      | (s1, Inr u) \<Rightarrow> (s1, Inr df))"

text \<open>
  The hybrids hold a \<^verbatim>\<open>VanilaMICE\<close> and a \<^verbatim>\<open>FastMICE\<close> built with their own
  \<^verbatim>\<open>max_iter\<close> and hand the call over to one of them.
\<close>

definition SlowFastMICE_transform ::
  "env \<Rightarrow> int \<Rightarrow> state \<Rightarrow> nat \<Rightarrow> (string \<times> nat) list \<Rightarrow> (nat \<times> nat) list \<Rightarrow> int \<Rightarrow> state \<times> (error + nat)" where
  "SlowFastMICE_transform env max_iter s df columns_missing nan_ids iter_id =
     (if iter_id > 0 then FastMICE_transform env max_iter s df columns_missing nan_ids iter_id
      else VanilaMICE_transform env max_iter s df columns_missing nan_ids iter_id)"

definition FastSlowMICE_transform ::
  "env \<Rightarrow> int \<Rightarrow> state \<Rightarrow> nat \<Rightarrow> (string \<times> nat) list \<Rightarrow> (nat \<times> nat) list \<Rightarrow> int \<Rightarrow> state \<times> (error + nat)" where
  "FastSlowMICE_transform env max_iter s df columns_missing nan_ids iter_id =
     (if iter_id + 1 = max_iter then VanilaMICE_transform env max_iter s df columns_missing nan_ids iter_id
      else FastMICE_transform env max_iter s df columns_missing nan_ids iter_id)"

section \<open>Method calls\<close>

text \<open>
  The four classes of the module that define \<^verbatim>\<open>transform\<close> with the parameters
  \<^verbatim>\<open>(self, df, columns_missing, nan_ids, iter_id)\<close>. A call passes its arguments by
  position; Python checks their number against the parameters before the body runs and
  raises TypeError when one is missing.
\<close>

datatype variant = VanilaMICE | FastMICE | SlowFastMICE | FastSlowMICE

datatype arg = ADataFrame nat | ASeries "(string \<times> nat) list" | AList "(nat \<times> nat) list" | AInt int

fun transform ::
  "variant \<Rightarrow> env \<Rightarrow> int \<Rightarrow> state \<Rightarrow> nat \<Rightarrow> (string \<times> nat) list \<Rightarrow> (nat \<times> nat) list \<Rightarrow> int \<Rightarrow> state \<times> (error + nat)" where
  "transform VanilaMICE = VanilaMICE_transform"
| "transform FastMICE = FastMICE_transform"
| "transform SlowFastMICE = SlowFastMICE_transform"
| "transform FastSlowMICE = FastSlowMICE_transform"

definition call_transform :: "variant \<Rightarrow> env \<Rightarrow> int \<Rightarrow> state \<Rightarrow> arg list \<Rightarrow> state \<times> (error + nat)" where
  "call_transform v env max_iter s args =
     (if length args \<noteq> 4 then (s, Inl TypeError)
      else case (args ! 0, args ! 1, args ! 2, args ! 3) of
             (ADataFrame df, ASeries columns_missing, AList nan_ids, AInt iter_id) \<Rightarrow>
               transform v env max_iter s df columns_missing nan_ids iter_id
           | _ \<Rightarrow> (s, Inl TypeError))"

section \<open>BaseMICE.fill_missing_values\<close>

text \<open>
  The body of \<^verbatim>\<open>for iter in range(self.max_iter)\<close>: the call
  \<^verbatim>\<open>self.transform(df_imputed, nan_ids, iter)\<close> passes three arguments. The loop
  variable \<open>df_imputed\<close> of the source is the reference returned by the last call.
\<close>

fun fill_loop :: "variant \<Rightarrow> env \<Rightarrow> int \<Rightarrow> (nat \<times> nat) list \<Rightarrow> int list \<Rightarrow> nat \<Rightarrow> state \<Rightarrow> state \<times> (error + nat)" where
  "fill_loop v env max_iter nan_ids [] df_imputed s = (s, Inr df_imputed)"
| "fill_loop v env max_iter nan_ids (iter_id # rest) df_imputed s =
     (case call_transform v env max_iter s [ADataFrame df_imputed, AList nan_ids, AInt iter_id] of
        (s1, Inl e) \<Rightarrow> (s1, Inl e)
      | (s1, Inr d) \<Rightarrow> fill_loop v env max_iter nan_ids rest d s1)"

definition fill_missing_values :: "variant \<Rightarrow> env \<Rightarrow> int \<Rightarrow> state \<Rightarrow> nat \<Rightarrow> state \<times> (error + nat)" where
  "fill_missing_values v env max_iter s df =
     (let nan_ids = argwhere_isna (heap s ! df) in
      case impute_initial_mean_or_mode s df of
        (s1, Inl e) \<Rightarrow> (s1, Inl e)
      | (s1, Inr df_imputed) \<Rightarrow> fill_loop v env max_iter nan_ids (py_range max_iter) df_imputed s1)"

section \<open>BaseMICE.compute_loss and BaseMICE.benchmark\<close>

text \<open>
  \<^verbatim>\<open>sklearn.metrics.mean_squared_error(y_true, y_pred)\<close> on two frames: both are
  converted to arrays of floats, cell by cell, whatever the dtype of the column: a cell
  of an object column is read by \<open>to_float64\<close>. A cell that does not read as a number, a
  missing cell, and an array without rows or without columns raise ValueError. The
  shapes must agree, and the result is the average over the columns of the average over
  the rows of the squared differences. Rows and columns are matched by position.
\<close>

fun cell_value :: "env \<Rightarrow> obj option \<Rightarrow> real option" where
  "cell_value env None = None"
| "cell_value env (Some x) = to_float64 env x"

fun column_values :: "env \<Rightarrow> column \<Rightarrow> error + real list" where
  "column_values env (Numeric xs) = (if None \<in> set xs then Inl ValueError else Inr (dropna xs))"
| "column_values env (Categorical xs) =
     (if None \<in> set (map (cell_value env) xs) then Inl ValueError
      else Inr (dropna (map (cell_value env) xs)))"

fun check_columns :: "env \<Rightarrow> (string \<times> column) list \<Rightarrow> error + real list list" where
  "check_columns env [] = Inr []"
| "check_columns env ((n, c) # cols) =
     (case column_values env c of
        Inl e \<Rightarrow> Inl e
      | Inr xs \<Rightarrow> (case check_columns env cols of Inl e \<Rightarrow> Inl e | Inr rest \<Rightarrow> Inr (xs # rest)))"

definition check_array :: "env \<Rightarrow> dataframe \<Rightarrow> error + real list list" where
  "check_array env df =
     (if index df = [] \<or> columns df = [] then Inl ValueError else check_columns env (columns df))"

definition average :: "real list \<Rightarrow> real" where
  "average xs = sum_list xs / real (length xs)"

definition mean_squared_error :: "env \<Rightarrow> dataframe \<Rightarrow> dataframe \<Rightarrow> error + real" where
  "mean_squared_error env y_true y_pred =
     (if length (index y_true) \<noteq> length (index y_pred) then Inl ValueError
      else case check_array env y_true of
             Inl e \<Rightarrow> Inl e
           | Inr a \<Rightarrow>
               (case check_array env y_pred of
                  Inl e \<Rightarrow> Inl e
                | Inr b \<Rightarrow>
                    if length a \<noteq> length b then Inl ValueError
                    else Inr (average (map (\<lambda>(x, y). average (map (\<lambda>(u, v). (u - v)\<^sup>2) (zip x y)))
                                           (zip a b)))))"

definition compute_loss :: "env \<Rightarrow> dataframe \<Rightarrow> dataframe \<Rightarrow> error + real" where
  "compute_loss env original_df filled_df = mean_squared_error env original_df filled_df"

text \<open>
  The argument of \<^verbatim>\<open>compute_loss\<close> in \<^verbatim>\<open>benchmark\<close>: the frame itself when
  \<^verbatim>\<open>drop_columns_loss\<close> is falsy (\<^verbatim>\<open>None\<close> or the empty list, both \<open>[]\<close> here), the frame
  without these columns otherwise.
\<close>

definition retained :: "string list \<Rightarrow> dataframe \<Rightarrow> error + dataframe" where
  "retained drop_columns_loss df =
     (if drop_columns_loss \<noteq> [] then
        (case drop_columns drop_columns_loss (columns df) of
           Inl e \<Rightarrow> Inl e
         | Inr cols \<Rightarrow> Inr (df\<lparr>columns := cols\<rparr>))
      else Inr df)"

definition iteration_loss :: "env \<Rightarrow> string list \<Rightarrow> dataframe \<Rightarrow> dataframe \<Rightarrow> error + real" where
  "iteration_loss env drop_columns_loss df_original df_imputed =
     (case retained drop_columns_loss df_original of
        Inl e \<Rightarrow> Inl e
      | Inr a \<Rightarrow>
          (case retained drop_columns_loss df_imputed of
             Inl e \<Rightarrow> Inl e
           | Inr b \<Rightarrow> compute_loss env a b))"

record iter_result =
  iter :: int
  time_seconds :: real
  loss :: real

text \<open>
  \<^verbatim>\<open>df_missing.isna().sum()\<close> restricted to the columns with a missing cell.
\<close>

definition columns_missing_of :: "dataframe \<Rightarrow> (string \<times> nat) list" where
  "columns_missing_of df =
     filter (\<lambda>(n, k). k > 0)
       (map (\<lambda>(n, c). (n, length (filter (isna c) [0..<length (index df)]))) (columns df))"

text \<open>
  The body of \<^verbatim>\<open>for iter in range(self.max_iter)\<close> in \<^verbatim>\<open>benchmark\<close>: here the call is
  \<^verbatim>\<open>self.transform(df_imputed, columns_missing, nan_ids, iter)\<close>, with four arguments.
\<close>

fun benchmark_loop ::
  "variant \<Rightarrow> env \<Rightarrow> int \<Rightarrow> nat \<Rightarrow> string list \<Rightarrow> (string \<times> nat) list \<Rightarrow> (nat \<times> nat) list \<Rightarrow>
   int list \<Rightarrow> nat \<Rightarrow> iter_result list \<Rightarrow> state \<Rightarrow> state \<times> (error + iter_result list)" where
  "benchmark_loop v env max_iter df_original drop_columns_loss columns_missing nan_ids [] df_imputed iter_results s =
     (s, Inr iter_results)"
| "benchmark_loop v env max_iter df_original drop_columns_loss columns_missing nan_ids (iter_id # rest) df_imputed iter_results s =
     (let time_start = time env (clock_reads s) in
      case call_transform v env max_iter (s\<lparr>clock_reads := Suc (clock_reads s)\<rparr>)
             [ADataFrame df_imputed, ASeries columns_missing, AList nan_ids, AInt iter_id] of
        (s1, Inl e) \<Rightarrow> (s1, Inl e)
      | (s1, Inr d) \<Rightarrow>
          (let time_stop = time env (clock_reads s1) - time_start;
               s2 = s1\<lparr>clock_reads := Suc (clock_reads s1)\<rparr>
           in case iteration_loss env drop_columns_loss (heap s2 ! df_original) (heap s2 ! d) of
                Inl e \<Rightarrow> (s2, Inl e)
              | Inr l \<Rightarrow>
                  benchmark_loop v env max_iter df_original drop_columns_loss columns_missing nan_ids rest d
                    (iter_results @ [\<lparr>iter = iter_id, time_seconds = time_stop, loss = l\<rparr>]) s2))"

definition benchmark ::
  "variant \<Rightarrow> env \<Rightarrow> int \<Rightarrow> state \<Rightarrow> nat \<Rightarrow> nat \<Rightarrow> string list \<Rightarrow> state \<times> (error + iter_result list)" where
  "benchmark v env max_iter s df_original df_missing drop_columns_loss =
     (let columns_missing = columns_missing_of (heap s ! df_missing);
          nan_ids = argwhere_isna (heap s ! df_missing)
      in case impute_initial_mean_or_mode s df_missing of
           (s1, Inl e) \<Rightarrow> (s1, Inl e)
         | (s1, Inr df_imputed) \<Rightarrow>
             (case df_copy s1 df_imputed of
                (s2, m) \<Rightarrow>
                  benchmark_loop v env max_iter df_original drop_columns_loss columns_missing nan_ids
                    (py_range max_iter) df_imputed [] (s2\<lparr>df_mean := Some m\<rparr>)))"

section \<open>Specification vocabulary\<close>

text \<open>
  What \<^verbatim>\<open>impute_initial_mean_or_mode\<close> does to one column (\<open>filled\<close>: the fill chosen by
  the column's dtype, or the exception) and to the columns in turn: the loop stops at
  the first column whose fill raises and leaves that column and the later ones as they
  were. \<open>initial_imputation t\<close> is the frame this leaves in the copy, and
  \<open>imputation_error\<close> the exception, if any.
\<close>

definition filled :: "int list \<Rightarrow> column \<Rightarrow> error + column" where
  "filled idx col = (if is_numeric_dtype col then fillna_mean col else fillna_mode idx col)"

fun imputed_columns :: "int list \<Rightarrow> (string \<times> column) list \<Rightarrow> (string \<times> column) list" where
  "imputed_columns idx [] = []"
| "imputed_columns idx ((n, col) # cols) =
     (case filled idx col of
        Inl e \<Rightarrow> (n, col) # cols
      | Inr col' \<Rightarrow> (n, col') # imputed_columns idx cols)"

fun imputation_error :: "int list \<Rightarrow> (string \<times> column) list \<Rightarrow> error option" where
  "imputation_error idx [] = None"
| "imputation_error idx ((n, col) # cols) =
     (case filled idx col of Inl e \<Rightarrow> Some e | Inr col' \<Rightarrow> imputation_error idx cols)"

definition initial_imputation :: "dataframe \<Rightarrow> dataframe" where
  "initial_imputation t = t\<lparr>columns := imputed_columns (index t) (columns t)\<rparr>"

text \<open>
  The initial imputation in the words of the specification: every missing numeric cell
  holds the arithmetic mean of the present values of its column, and every missing
  categorical cell holds the column's mode, the most frequent present value (the first
  in sorted order when several are as frequent).
\<close>

fun present_strings :: "obj option list \<Rightarrow> string list" where
  "present_strings [] = []"
| "present_strings (Some (Str v) # xs) = v # present_strings xs"
| "present_strings (x # xs) = present_strings xs"

definition most_frequent :: "obj option list \<Rightarrow> obj option" where
  "most_frequent xs =
     (case mode (map Some (present_strings xs)) of [] \<Rightarrow> None | m # ms \<Rightarrow> Some (Str m))"

fun mean_or_mode_filled :: "column \<Rightarrow> column" where
  "mean_or_mode_filled (Numeric xs) = Numeric (fillna_scalar xs (mean xs))"
| "mean_or_mode_filled (Categorical xs) = Categorical (fillna_scalar xs (most_frequent xs))"

definition mean_mode_initialized :: "dataframe \<Rightarrow> dataframe" where
  "mean_mode_initialized t = t\<lparr>columns := map (\<lambda>(n, col). (n, mean_or_mode_filled col)) (columns t)\<rparr>"

text \<open>
  The cell of a frame at a position, and the positions at which two frames of the same
  shape differ. \<open>same_outside ids t t'\<close>: the frame \<open>t'\<close> has the row labels, the column
  labels, the dtypes and the column lengths of \<open>t\<close>, and the same cell at every position
  that is not in \<open>ids\<close>. \<open>writes_within ids df s s'\<close>: from state \<open>s\<close> to \<open>s'\<close> no
  object was created, every object but \<open>df\<close> is as it was, and \<open>df\<close> changed at
  positions of \<open>ids\<close> only.
\<close>

datatype cell = Number "real option" | Label "obj option"

fun column_cell :: "column \<Rightarrow> nat \<Rightarrow> cell" where
  "column_cell (Numeric xs) r = Number (xs ! r)"
| "column_cell (Categorical xs) r = Label (xs ! r)"

definition cell_at :: "dataframe \<Rightarrow> nat \<Rightarrow> nat \<Rightarrow> cell" where
  "cell_at t r c = column_cell (snd (columns t ! c)) r"

definition differing_positions :: "dataframe \<Rightarrow> dataframe \<Rightarrow> (nat \<times> nat) list" where
  "differing_positions t t' =
     concat (map (\<lambda>r. concat (map (\<lambda>c. if cell_at t r c = cell_at t' r c then [] else [(r, c)])
                                  [0..<length (columns t)]))
                 [0..<length (index t)])"

definition same_outside :: "(nat \<times> nat) list \<Rightarrow> dataframe \<Rightarrow> dataframe \<Rightarrow> bool" where
  "same_outside ids t t' \<longleftrightarrow>
     index t' = index t \<and> length (columns t') = length (columns t) \<and>
     (\<forall>c < length (columns t).
        fst (columns t' ! c) = fst (columns t ! c) \<and>
        is_numeric_dtype (snd (columns t' ! c)) = is_numeric_dtype (snd (columns t ! c)) \<and>
        column_length (snd (columns t' ! c)) = column_length (snd (columns t ! c)) \<and>
        (\<forall>r. (r, c) \<notin> set ids \<longrightarrow> cell_at t' r c = cell_at t r c))"

definition writes_within :: "(nat \<times> nat) list \<Rightarrow> nat \<Rightarrow> state \<Rightarrow> state \<Rightarrow> bool" where
  "writes_within ids df s s' \<longleftrightarrow>
     length (heap s') = length (heap s) \<and>
     (\<forall>a. a \<noteq> df \<longrightarrow> heap s' ! a = heap s ! a) \<and>
     same_outside ids (heap s ! df) (heap s' ! df)"

text \<open>
  For the loss. A cell reads as a number when it is present and, in an object column,
  \<open>to_float64\<close> reads it; \<open>readable\<close>: every cell of the frame does. \<open>unreadable_rows\<close>:
  the rows of a column with a present cell that does not read as a number.
  \<open>value_at\<close>: the number read in a cell. \<open>rectangular\<close>: every column is as long as the
  index (as in every pandas DataFrame). \<open>kept\<close>: the frame without the columns labelled
  in \<^verbatim>\<open>drop_columns_loss\<close>; \<open>droppable\<close>: every such label is a column of the frame.
\<close>

fun readable_column :: "env \<Rightarrow> column \<Rightarrow> bool" where
  "readable_column env (Numeric xs) = list_all (\<lambda>x. x \<noteq> None) xs"
| "readable_column env (Categorical xs) =
     list_all (\<lambda>x. case x of None \<Rightarrow> False | Some y \<Rightarrow> to_float64 env y \<noteq> None) xs"

definition readable :: "env \<Rightarrow> dataframe \<Rightarrow> bool" where
  "readable env t \<longleftrightarrow> list_all (\<lambda>(n, c). readable_column env c) (columns t)"

fun unreadable_rows :: "env \<Rightarrow> column \<Rightarrow> nat list" where
  "unreadable_rows env (Numeric xs) = []"
| "unreadable_rows env (Categorical xs) =
     filter (\<lambda>r. case xs ! r of None \<Rightarrow> False | Some y \<Rightarrow> to_float64 env y = None) [0..<length xs]"

fun cell_number :: "env \<Rightarrow> cell \<Rightarrow> real" where
  "cell_number env (Number x) = (case x of Some u \<Rightarrow> u | None \<Rightarrow> 0)"
| "cell_number env (Label x) = (case cell_value env x of Some u \<Rightarrow> u | None \<Rightarrow> 0)"

definition value_at :: "env \<Rightarrow> dataframe \<Rightarrow> nat \<Rightarrow> nat \<Rightarrow> real" where
  "value_at env t r c = cell_number env (cell_at t r c)"

definition rectangular :: "dataframe \<Rightarrow> bool" where
  "rectangular t \<longleftrightarrow> list_all (\<lambda>(n, c). column_length c = length (index t)) (columns t)"

definition kept :: "string list \<Rightarrow> dataframe \<Rightarrow> dataframe" where
  "kept drop_columns_loss t = t\<lparr>columns := filter (\<lambda>(n, c). n \<notin> set drop_columns_loss) (columns t)\<rparr>"

definition droppable :: "string list \<Rightarrow> dataframe \<Rightarrow> bool" where
  "droppable drop_columns_loss t \<longleftrightarrow> list_all (\<lambda>n. n \<in> set (map fst (columns t))) drop_columns_loss"

text \<open>
  The first pass of \<^verbatim>\<open>benchmark\<close>: the state in which its first call of \<^verbatim>\<open>transform\<close>
  is made (after the imputation, the copy kept in \<^verbatim>\<open>self.df_mean\<close> and the first
  reading of the clock), and that call.
\<close>

definition benchmark_entry :: "state \<Rightarrow> nat \<Rightarrow> state" where
  "benchmark_entry s df_missing =
     s\<lparr>heap := heap s @ [initial_imputation (heap s ! df_missing),
                          initial_imputation (heap s ! df_missing)],
       df_mean := Some (Suc (length (heap s))),
       clock_reads := Suc (clock_reads s)\<rparr>"

definition first_transform :: "variant \<Rightarrow> env \<Rightarrow> int \<Rightarrow> state \<Rightarrow> nat \<Rightarrow> state \<times> (error + nat)" where
  "first_transform v env max_iter s df_missing =
     transform v env max_iter (benchmark_entry s df_missing) (length (heap s))
       (columns_missing_of (heap s ! df_missing)) (argwhere_isna (heap s ! df_missing)) 0"

section \<open>Example inputs\<close>

text \<open>
  An environment whose permutation is the identity, whose clock advances by one second
  per reading, whose estimators always fit and predict a constant, and which reads a
  string of decimal digits as its number and no other object (the examples hold no
  cell on which this differs from the conversion numpy makes); the interpreter state
  before a call; and small frames.
\<close>

definition digit :: "char \<Rightarrow> nat option" where
  "digit c =
     map_of [(CHR ''0'', 0), (CHR ''1'', 1), (CHR ''2'', 2), (CHR ''3'', 3), (CHR ''4'', 4),
             (CHR ''5'', 5), (CHR ''6'', 6), (CHR ''7'', 7), (CHR ''8'', 8), (CHR ''9'', 9)] c"

fun decimal :: "nat \<Rightarrow> string \<Rightarrow> nat option" where
  "decimal acc [] = Some acc"
| "decimal acc (c # cs) = (case digit c of None \<Rightarrow> None | Some k \<Rightarrow> decimal (10 * acc + k) cs)"

fun read_string :: "string \<Rightarrow> real option" where
  "read_string [] = None"
| "read_string (c # cs) = map_option real (decimal 0 (c # cs))"

fun read_digits :: "obj \<Rightarrow> real option" where
  "read_digits (Str v) = read_string v"
| "read_digits (NdArray a) = None"

definition example_env :: env where
  "example_env =
     \<lparr>permutation = (\<lambda>k n. [0..<n]), time = (\<lambda>k. real k),
      LGBMRegressor_fit = (\<lambda>X y. Inr (\<lambda>row. 42)),
      LGBMClassifier_fit = (\<lambda>X y. Inr (\<lambda>row. ''z'')),
      to_float64 = read_digits\<rparr>"

definition initial_state :: "dataframe list \<Rightarrow> state" where
  "initial_state h = \<lparr>heap = h, draws = 0, clock_reads = 0, df_mean = None, fit_log = []\<rparr>"

definition frame_complete :: dataframe where
  "frame_complete =
     \<lparr>index = [0, 1], columns = [(''a'', Numeric [Some 1, Some 2]), (''b'', Numeric [Some 1, Some 2])]\<rparr>"

definition frame_missing :: dataframe where
  "frame_missing =
     \<lparr>index = [0, 1], columns = [(''a'', Numeric [None, Some 2]), (''b'', Numeric [Some 1, Some 2])]\<rparr>"

definition frame_missing_b :: dataframe where
  "frame_missing_b =
     \<lparr>index = [0, 1], columns = [(''a'', Numeric [Some 1, Some 2]), (''b'', Numeric [None, Some 2])]\<rparr>"

definition frame_shuffled :: dataframe where
  "frame_shuffled =
     \<lparr>index = [1, 0], columns = [(''a'', Numeric [None, Some 2]), (''b'', Numeric [Some 1, Some 2])]\<rparr>"

definition frame_categorical :: dataframe where
  "frame_categorical =
     \<lparr>index = [0, 1, 2], columns = [(''c'', Categorical [Some (Str ''a''), Some (Str ''a''), None])]\<rparr>"

definition frame_predicted :: dataframe where
  "frame_predicted =
     \<lparr>index = [0, 1], columns = [(''a'', Numeric [Some 42, Some 2]), (''b'', Numeric [Some 1, Some 2])]\<rparr>"

definition frame_digits :: dataframe where
  "frame_digits =
     \<lparr>index = [0, 1],
      columns = [(''a'', Numeric [Some 1, Some 2]), (''s'', Categorical [Some (Str ''1''), Some (Str ''2'')])]\<rparr>"

definition frame_digits_missing :: dataframe where
  "frame_digits_missing =
     \<lparr>index = [0, 1],
      columns = [(''a'', Numeric [None, Some 2]), (''s'', Categorical [Some (Str ''1''), Some (Str ''2'')])]\<rparr>"

definition frame_words :: dataframe where
  "frame_words =
     \<lparr>index = [0, 1],
      columns = [(''a'', Numeric [Some 1, Some 2]), (''s'', Categorical [Some (Str ''x''), Some (Str ''y'')])]\<rparr>"

definition frame_words_predicted :: dataframe where
  "frame_words_predicted =
     \<lparr>index = [0, 1],
      columns = [(''a'', Numeric [Some 42, Some 2]), (''s'', Categorical [Some (Str ''x''), Some (Str ''y'')])]\<rparr>"

definition frame_words_missing :: dataframe where
  "frame_words_missing =
     \<lparr>index = [0, 1],
      columns = [(''a'', Numeric [None, Some 2]), (''s'', Categorical [Some (Str ''x''), Some (Str ''y'')])]\<rparr>"

definition frame_digits_other :: dataframe where
  "frame_digits_other =
     \<lparr>index = [0, 1],
      columns = [(''a'', Numeric [Some 1, Some 2]), (''s'', Categorical [Some (Str ''3''), Some (Str ''2'')])]\<rparr>"

section \<open>Calls of transform\<close>

lemma call_transform_three:
  "call_transform v env max_iter s [a, b, c] = (s, Inl TypeError)"
  by (simp add: call_transform_def)

lemma call_transform_four:
  "call_transform v env max_iter s [ADataFrame df, ASeries cm, AList nan_ids, AInt iter_id]
     = transform v env max_iter s df cm nan_ids iter_id"
  by (simp add: call_transform_def)

lemma fill_loop_raises:
  "iters \<noteq> [] \<Longrightarrow> fill_loop v env max_iter nan_ids iters d s = (s, Inl TypeError)"
  by (cases iters) (simp_all add: call_transform_three)

lemma py_range_Nil: "py_range n = [] \<longleftrightarrow> n \<le> 0"
  by (simp add: py_range_def)

section \<open>The for loop\<close>

lemma for_loop_append:
  "for_loop body (xs @ [x]) s =
     (case for_loop body xs s of (s1, Inl e) \<Rightarrow> (s1, Inl e) | (s1, Inr u) \<Rightarrow> body x s1)"
  by (induction xs arbitrary: s) (auto split: prod.splits sum.splits)

lemma for_loop_error:
  assumes "\<And>x s s' e. body x s = (s', Inl e) \<Longrightarrow> e = err"
  shows "for_loop body xs s = (s', Inl e) \<Longrightarrow> e = err"
proof (induction xs arbitrary: s)
  case Nil
  then show ?case by simp
next
  case (Cons x xs)
  then show ?case using assms
    by (auto split: prod.splits sum.splits)
qed

section \<open>The initial imputation\<close>

lemma hashable_values_error: "hashable_values xs = Inl e \<Longrightarrow> e = TypeError"
  by (induction xs rule: hashable_values.induct) (auto split: sum.splits)

lemma impute_column_error:
  "impute_column df df_new c s = (s', Inl e) \<Longrightarrow> e = TypeError"
  unfolding impute_column_def
  by (cases "snd (columns (heap s ! df_new) ! c)")
     (auto split: if_splits sum.splits dest: hashable_values_error)

lemma impute_initial_error:
  "impute_initial_mean_or_mode s df = (s', Inl e) \<Longrightarrow> e = TypeError"
  unfolding impute_initial_mean_or_mode_def df_copy_def
  by (auto split: prod.splits sum.splits
           dest!: for_loop_error[rotated, where err = TypeError] impute_column_error)

lemma impute_column_step:
  assumes "df < length (heap s)"
      and "columns (heap s ! df) = done0 @ (n, col) # rest" and "length done = length done0"
  shows "impute_column df (length (heap s)) (length done0)
           (s\<lparr>heap := heap s @ [(heap s ! df)\<lparr>columns := done @ (n, col) # rest\<rparr>]\<rparr>)
         = (case filled (index (heap s ! df)) col of
              Inl e \<Rightarrow> (s\<lparr>heap := heap s @ [(heap s ! df)\<lparr>columns := done @ (n, col) # rest\<rparr>]\<rparr>, Inl e)
            | Inr col' \<Rightarrow>
                (s\<lparr>heap := heap s @ [(heap s ! df)\<lparr>columns := (done @ [(n, col')]) @ rest\<rparr>]\<rparr>, Inr ()))"
proof -
  let ?T = "heap s ! df"
  let ?S = "s\<lparr>heap := heap s @ [?T\<lparr>columns := done @ (n, col) # rest\<rparr>]\<rparr>"
  have hdf: "heap ?S ! df = ?T"
    using assms(1) by (simp add: nth_append)
  have hn: "heap ?S ! length (heap s) = ?T\<lparr>columns := done @ (n, col) # rest\<rparr>"
    by simp
  have k0: "columns ?T ! length done0 = (n, col)"
    using assms(2) by simp
  have k: "(done @ (n, col) # rest) ! length done0 = (n, col)"
    using assms(3) by (metis nth_append_length)
  have upd: "(done @ (n, col) # rest)[length done0 := (n, col')] = done @ (n, col') # rest" for col'
    using assms(3) by (metis list_update_length)
  have st: "setitem ?S (length (heap s)) (length done0) col'
              = s\<lparr>heap := heap s @ [?T\<lparr>columns := (done @ [(n, col')]) @ rest\<rparr>]\<rparr>" for col'
    by (simp add: setitem_def k upd)
  have "impute_column df (length (heap s)) (length done0) ?S
          = (case filled (index ?T) col of Inl e \<Rightarrow> (?S, Inl e)
             | Inr col' \<Rightarrow> (setitem ?S (length (heap s)) (length done0) col', Inr ()))"
    unfolding impute_column_def hdf hn by (simp add: k0 k filled_def)
  then show ?thesis by (simp only: st)
qed

lemma impute_suffix:
  assumes "df < length (heap s)"
  shows "columns (heap s ! df) = done0 @ rest \<Longrightarrow> length done = length done0 \<Longrightarrow>
         for_loop (impute_column df (length (heap s))) [length done0..<length done0 + length rest]
           (s\<lparr>heap := heap s @ [(heap s ! df)\<lparr>columns := done @ rest\<rparr>]\<rparr>)
         = (s\<lparr>heap := heap s @ [(heap s ! df)\<lparr>columns :=
                done @ imputed_columns (index (heap s ! df)) rest\<rparr>]\<rparr>,
            case imputation_error (index (heap s ! df)) rest of None \<Rightarrow> Inr () | Some e \<Rightarrow> Inl e)"
proof (induction rest arbitrary: done0 "done")
  case Nil
  then show ?case by simp
next
  case (Cons p rest)
  obtain n col where p: "p = (n, col)" by (cases p)
  have range: "[length done0..<length done0 + length (p # rest)]
                 = length done0 # [Suc (length done0)..<Suc (length done0) + length rest]"
    using upt_conv_Cons[of "length done0" "length done0 + length (p # rest)"] by simp
  note step = impute_column_step[OF assms Cons.prems(1)[unfolded p] Cons.prems(2)]
  show ?case
  proof (cases "filled (index (heap s ! df)) col")
    case (Inl e)
    with step show ?thesis unfolding range by (simp add: p)
  next
    case (Inr col')
    have "columns (heap s ! df) = (done0 @ [(n, col)]) @ rest"
      using Cons.prems(1) p by simp
    moreover have "length (done @ [(n, col')]) = length (done0 @ [(n, col)])"
      using Cons.prems(2) by simp
    ultimately have "for_loop (impute_column df (length (heap s)))
           [length (done0 @ [(n, col)])..<length (done0 @ [(n, col)]) + length rest]
           (s\<lparr>heap := heap s @ [(heap s ! df)\<lparr>columns := (done @ [(n, col')]) @ rest\<rparr>]\<rparr>)
         = (s\<lparr>heap := heap s @ [(heap s ! df)\<lparr>columns :=
                (done @ [(n, col')]) @ imputed_columns (index (heap s ! df)) rest\<rparr>]\<rparr>,
            case imputation_error (index (heap s ! df)) rest of None \<Rightarrow> Inr () | Some e \<Rightarrow> Inl e)"
      by (rule Cons.IH)
    with step Inr show ?thesis unfolding range by (simp add: p)
  qed
qed

lemma impute_initial_mean_or_mode_eq:
  assumes "df < length (heap s)"
  shows "impute_initial_mean_or_mode s df
         = (s\<lparr>heap := heap s @ [initial_imputation (heap s ! df)]\<rparr>,
            case imputation_error (index (heap s ! df)) (columns (heap s ! df)) of
              None \<Rightarrow> Inr (length (heap s)) | Some e \<Rightarrow> Inl e)"
proof -
  have same: "(heap s ! df)\<lparr>columns := columns (heap s ! df)\<rparr> = heap s ! df"
    by simp
  from impute_suffix[OF assms, of "[]" "columns (heap s ! df)" "[]"]
  have "for_loop (impute_column df (length (heap s))) [0..<length (columns (heap s ! df))]
           (s\<lparr>heap := heap s @ [heap s ! df]\<rparr>)
         = (s\<lparr>heap := heap s @ [initial_imputation (heap s ! df)]\<rparr>,
            case imputation_error (index (heap s ! df)) (columns (heap s ! df)) of
              None \<Rightarrow> Inr () | Some e \<Rightarrow> Inl e)"
    by (simp add: initial_imputation_def same)
  with assms show ?thesis
    by (simp add: impute_initial_mean_or_mode_def df_copy_def nth_append split: option.splits)
qed

section \<open>fill_missing_values\<close>

lemma fill_missing_values_raises:
  assumes "0 < max_iter"
  shows "snd (fill_missing_values v env max_iter s df) = Inl TypeError"
proof -
  have ne: "py_range max_iter \<noteq> []" using assms by (simp add: py_range_Nil)
  show ?thesis
    unfolding fill_missing_values_def Let_def
    by (auto split: prod.splits sum.splits simp: fill_loop_raises[OF ne] dest: impute_initial_error)
qed

lemma fill_missing_values_zero:
  "fill_missing_values v env 0 s df = impute_initial_mean_or_mode s df"
  by (auto simp: fill_missing_values_def py_range_def split: prod.splits sum.splits)

text \<open>
  C1. The claim: for every table and every variant with \<open>max_iter \<ge> 1\<close>,
  \<^verbatim>\<open>fill_missing_values\<close> runs to completion and returns a table without missing cells,
  of the shape and column types of the input. The code does not: its loop calls
  \<^verbatim>\<open>self.transform(df_imputed, nan_ids, iter)\<close> with three arguments, every
  \<^verbatim>\<open>transform\<close> takes four, and the first iteration raises TypeError (lemma
  \<open>fill_missing_values_raises\<close>). Here at the default \<open>max_iter = 10\<close> on a two-row
  frame with one missing cell, for each of the four variants.
\<close>

theorem fill_missing_values_raises_on_frame_missing:
  "snd (fill_missing_values VanilaMICE example_env 10 (initial_state [frame_missing]) 0) = Inl TypeError
   \<and> snd (fill_missing_values FastMICE example_env 10 (initial_state [frame_missing]) 0) = Inl TypeError
   \<and> snd (fill_missing_values SlowFastMICE example_env 10 (initial_state [frame_missing]) 0) = Inl TypeError
   \<and> snd (fill_missing_values FastSlowMICE example_env 10 (initial_state [frame_missing]) 0) = Inl TypeError"
  by (simp add: fill_missing_values_raises)

text \<open>
  C8. The claim: on a table without missing values \<^verbatim>\<open>fill_missing_values\<close> of every
  variant returns a table equal to the input. The frame below has no missing cell, and
  the call raises TypeError instead of returning (the same three-argument call as in
  C1).
\<close>

theorem fill_missing_values_raises_on_frame_complete:
  "argwhere_isna frame_complete = []
   \<and> snd (fill_missing_values VanilaMICE example_env 10 (initial_state [frame_complete]) 0) = Inl TypeError"
  by (simp add: fill_missing_values_raises argwhere_isna_def frame_complete_def upt_rec)

text \<open>
  C5. The claim: \<^verbatim>\<open>benchmark\<close> performs the same imputation and transform steps as
  \<^verbatim>\<open>fill_missing_values\<close>, apart from the timing and the loss. On the same missing
  frame with \<open>max_iter = 1\<close>, \<^verbatim>\<open>benchmark\<close> (which passes four arguments to
  \<^verbatim>\<open>transform\<close>) completes its pass and returns one record, while
  \<^verbatim>\<open>fill_missing_values\<close> raises TypeError at its first call of \<^verbatim>\<open>transform\<close>.
\<close>

theorem benchmark_and_fill_missing_values_differ:
  "snd (fill_missing_values VanilaMICE example_env 1 (initial_state [frame_complete, frame_missing]) 1)
     = Inl TypeError
   \<and> snd (benchmark VanilaMICE example_env 1 (initial_state [frame_complete, frame_missing]) 0 1 [])
     = Inr [\<lparr>iter = 0, time_seconds = 1, loss = 1681 / 4\<rparr>]"
  by code_simp

text \<open>
  C2. The claim: a pass of \<^verbatim>\<open>FastMICE.transform\<close> handles each column with missing
  cells exactly once, all its missing rows in one fit. On a frame whose only missing
  cell is in column 1, the pass draws a permutation of \<open>range(len(nan_ids))\<close> (here the
  single unit 0, not column 1), and its first statement \<^verbatim>\<open>nan_ids[id]\<close> raises
  TypeError: the pass ends without any fit, and column 1 is never handled.
\<close>

theorem FastMICE_pass_handles_no_column:
  "snd (benchmark FastMICE example_env 1 (initial_state [frame_complete, frame_missing_b]) 0 1 [])
     = Inl TypeError
   \<and> fit_log (fst (benchmark FastMICE example_env 1 (initial_state [frame_complete, frame_missing_b]) 0 1 []))
     = []
   \<and> argwhere_isna frame_missing_b = [(0, 1)]
   \<and> permutation example_env 0 (length (argwhere_isna frame_missing_b)) = [0]"
  by code_simp

text \<open>
  C3. The claim: \<^verbatim>\<open>impute_initial_mean_or_mode\<close> returns a table in which every
  missing categorical cell holds the column's mode. On a column \<open>a, a, NaN\<close> with the
  default row labels the returned copy equals the input: the missing cell in row 2 is
  still missing, because \<^verbatim>\<open>fillna\<close> is given the Series \<^verbatim>\<open>mode()\<close>, which has the
  single label 0, and fills by label.
\<close>

theorem impute_initial_leaves_categorical_cell_missing:
  "impute_initial_mean_or_mode (initial_state [frame_categorical]) 0
     = (initial_state [frame_categorical, frame_categorical], Inr 1)
   \<and> argwhere_isna frame_categorical = [(2, 0)]"
  by code_simp

text \<open>
  C6. The claim: in every fit the rows being predicted are excluded from the training
  rows. On a frame whose row labels are 1, 0 (the rows in another order than their
  labels) with the cell at position (0, 0) missing, the fit of the cell-level pass
  trains on the row at position 0 and predicts the row at position 0:
  \<^verbatim>\<open>drop(index=row_id)\<close> removes the row LABELLED 0, which is at position 1, while
  \<^verbatim>\<open>iloc\<close> reads and writes position 0.
\<close>

theorem VanilaMICE_trains_on_predicted_row:
  "fit_log (fst (benchmark VanilaMICE example_env 1 (initial_state [frame_complete, frame_shuffled]) 0 1 []))
     = [\<lparr>target = 0, train_rows = [0], predict_rows = [0]\<rparr>]"
  by code_simp

text \<open>
  C7. For \<open>max_iter \<ge> 2\<close> and an iteration \<open>0 \<le> iter_id < max_iter\<close>:
  \<^verbatim>\<open>SlowFastMICE.transform\<close> is the cell-level transform exactly when \<open>iter_id = 0\<close>
  and the column-level transform on every later iteration;
  \<^verbatim>\<open>FastSlowMICE.transform\<close> is the cell-level transform exactly when
  \<open>iter_id = max_iter - 1\<close> and the column-level transform on every earlier one.
\<close>

theorem hybrid_dispatch:
  assumes "2 \<le> max_iter" and "0 \<le> iter_id" and "iter_id < max_iter"
  shows "SlowFastMICE_transform env max_iter s df cm nan_ids iter_id =
           (if iter_id = 0 then VanilaMICE_transform env max_iter s df cm nan_ids iter_id
            else FastMICE_transform env max_iter s df cm nan_ids iter_id)
       \<and> FastSlowMICE_transform env max_iter s df cm nan_ids iter_id =
           (if iter_id = max_iter - 1 then VanilaMICE_transform env max_iter s df cm nan_ids iter_id
            else FastMICE_transform env max_iter s df cm nan_ids iter_id)"
  using assms by (auto simp: SlowFastMICE_transform_def FastSlowMICE_transform_def)

theorem hybrid_dispatch_witness:
  "SlowFastMICE_transform example_env 3 (initial_state [frame_missing]) 0 [] [(0, 0)] 0
     = VanilaMICE_transform example_env 3 (initial_state [frame_missing]) 0 [] [(0, 0)] 0
   \<and> FastSlowMICE_transform example_env 3 (initial_state [frame_missing]) 0 [] [(0, 0)] 0
     = FastMICE_transform example_env 3 (initial_state [frame_missing]) 0 [] [(0, 0)] 0"
  using hybrid_dispatch[of 3 0 example_env "initial_state [frame_missing]" 0 "[]" "[(0, 0)]"]
  by simp

lemma imputed_columns_numeric:
  "list_all (\<lambda>(n, col). is_numeric_dtype col) cols \<Longrightarrow>
   imputed_columns idx cols = map (\<lambda>(n, col). (n, mean_or_mode_filled col)) cols"
proof (induction cols)
  case Nil
  then show ?case by simp
next
  case (Cons p cols)
  obtain n col where p: "p = (n, col)" by (cases p)
  from Cons.prems obtain xs where xs: "col = Numeric xs" by (cases col) (auto simp: p)
  from Cons show ?case by (simp add: p xs filled_def)
qed

lemma initial_imputation_all_numeric:
  assumes "list_all (\<lambda>(n, col). is_numeric_dtype col) (columns t)"
  shows "initial_imputation t = mean_mode_initialized t"
  using imputed_columns_numeric[OF assms]
  by (simp add: initial_imputation_def mean_mode_initialized_def)

lemma fill_missing_values_without_iterations:
  assumes "df < length (heap s)"
  shows "fill_missing_values v env 0 s df = impute_initial_mean_or_mode s df
       \<and> heap (fst (fill_missing_values v env 0 s df)) = heap s @ [initial_imputation (heap s ! df)]
       \<and> heap (fst (fill_missing_values v env 0 s df)) ! df = heap s ! df
       \<and> fit_log (fst (fill_missing_values v env 0 s df)) = fit_log s"
  using assms
  by (simp add: fill_missing_values_zero impute_initial_mean_or_mode_eq nth_append)

text \<open>
  C9. The claim: with \<open>max_iter = 0\<close>, \<^verbatim>\<open>fill_missing_values\<close> returns exactly the
  mean/mode-initialized copy of the input, without fitting a model and without changing
  the input. On the column \<open>a, a, NaN\<close> the call fits no model, leaves the input as it
  is and returns a new object, but the copy it returns is not mean/mode-initialized:
  it equals the input, with the cell in row 2 still missing, where the mode \<open>a\<close> belongs
  (the same \<^verbatim>\<open>fillna(mode())\<close> by row label as in C3).
\<close>

theorem fill_missing_values_max_iter_zero_not_mode_initialized:
  "fill_missing_values VanilaMICE example_env 0 (initial_state [frame_categorical]) 0
     = (initial_state [frame_categorical, frame_categorical], Inr 1)
   \<and> mean_mode_initialized frame_categorical
     = \<lparr>index = [0, 1, 2],
        columns = [(''c'', Categorical [Some (Str ''a''), Some (Str ''a''), Some (Str ''a'')])]\<rparr>
   \<and> cell_at frame_categorical 2 0 = Label None
   \<and> cell_at (mean_mode_initialized frame_categorical) 2 0 = Label (Some (Str ''a''))"
  by code_simp

section \<open>The positions a pass writes\<close>

lemma same_outside_refl: "same_outside ids t t"
  by (simp add: same_outside_def)

lemma same_outside_trans:
  "same_outside ids t1 t2 \<Longrightarrow> same_outside ids t2 t3 \<Longrightarrow> same_outside ids t1 t3"
  by (simp add: same_outside_def)

lemma writes_within_refl: "writes_within ids df s s"
  by (simp add: writes_within_def same_outside_refl)

lemma writes_within_trans:
  "writes_within ids df s1 s2 \<Longrightarrow> writes_within ids df s2 s3 \<Longrightarrow> writes_within ids df s1 s3"
  unfolding writes_within_def by (auto intro: same_outside_trans)

lemma writes_within_heap_eq:
  "heap s0 = heap s \<Longrightarrow> writes_within ids df s0 s' \<Longrightarrow> writes_within ids df s s'"
  by (simp add: writes_within_def)

lemma same_heap_writes_within:
  "heap s' = heap s \<Longrightarrow> writes_within ids df s s'"
  by (simp add: writes_within_def same_outside_refl)

lemma setitem_writes_within:
  assumes "c < length (columns (heap s ! df))"
      and "is_numeric_dtype col = is_numeric_dtype (snd (columns (heap s ! df) ! c))"
      and "column_length col = column_length (snd (columns (heap s ! df) ! c))"
      and "\<And>r. (r, c) \<notin> set ids \<Longrightarrow> column_cell col r = column_cell (snd (columns (heap s ! df) ! c)) r"
  shows "writes_within ids df s (setitem s df c col)"
proof (cases "df < length (heap s)")
  case True
  then show ?thesis
    using assms
    by (auto simp: writes_within_def setitem_def same_outside_def cell_at_def nth_list_update)
next
  case False
  then show ?thesis
    by (simp add: writes_within_def setitem_def same_outside_refl list_update_beyond)
qed

lemma fold_update_length:
  "length (fold (\<lambda>(k, v) ys. ys[k := Some v]) ps xs) = length xs"
  by (induction ps arbitrary: xs) auto

lemma fold_update_nth:
  "r \<notin> fst ` set ps \<Longrightarrow> fold (\<lambda>(k, v) ys. ys[k := Some v]) ps xs ! r = xs ! r"
  by (induction ps arbitrary: xs) auto

lemma assign_length: "length (assign xs rows vs) = length xs"
  by (simp add: assign_def fold_update_length)

lemma assign_nth: "r \<notin> set rows \<Longrightarrow> assign xs rows vs ! r = xs ! r"
  unfolding assign_def
  by (rule fold_update_nth) (auto dest: set_zip_leftD)

lemma assign_cells_frame:
  assumes "assign_cells col rows values = Inr col'"
  shows "is_numeric_dtype col' = is_numeric_dtype col"
    and "column_length col' = column_length col"
    and "r \<notin> set rows \<Longrightarrow> column_cell col' r = column_cell col r"
  using assms
  by (cases col; cases "values"; auto split: if_splits simp: assign_length assign_nth)+

lemma store_frame:
  assumes "store col r0 vals = Inr col'"
  shows "is_numeric_dtype col' = is_numeric_dtype col"
    and "column_length col' = column_length col"
    and "r \<noteq> r0 \<Longrightarrow> column_cell col' r = column_cell col r"
  using assms
  by (cases col; cases vals; auto split: if_splits list.splits)+

lemma iloc_setitem_cell_writes_within:
  assumes "iloc_setitem_cell s df r0 c vals = (s', res)" and "(r0, c) \<in> set ids"
  shows "writes_within ids df s s'"
proof (cases "length (columns (heap s ! df)) \<le> c")
  case True
  with assms(1) show ?thesis by (simp add: iloc_setitem_cell_def writes_within_refl)
next
  case False
  show ?thesis
  proof (cases "store (snd (columns (heap s ! df) ! c)) r0 vals")
    case (Inl e)
    with False assms(1) show ?thesis by (simp add: iloc_setitem_cell_def writes_within_refl)
  next
    case (Inr col)
    with False assms(1) have s': "s' = setitem s df c col" by (simp add: iloc_setitem_cell_def)
    show ?thesis
      unfolding s'
    proof (rule setitem_writes_within)
      show "c < length (columns (heap s ! df))" using False by simp
      show "is_numeric_dtype col = is_numeric_dtype (snd (columns (heap s ! df) ! c))"
        by (rule store_frame(1)[OF Inr])
      show "column_length col = column_length (snd (columns (heap s ! df) ! c))"
        by (rule store_frame(2)[OF Inr])
      show "column_cell col r = column_cell (snd (columns (heap s ! df) ! c)) r" if "(r, c) \<notin> set ids" for r
        using that assms(2) by (intro store_frame(3)[OF Inr]) blast
    qed
  qed
qed

lemma iloc_setitem_writes_within:
  assumes "iloc_setitem s df rows c values = (s', res)"
      and "\<And>r. r \<in> set rows \<Longrightarrow> (r, c) \<in> set ids"
  shows "writes_within ids df s s'"
proof (cases "length (columns (heap s ! df)) \<le> c")
  case True
  with assms(1) show ?thesis by (simp add: iloc_setitem_def writes_within_refl)
next
  case False
  show ?thesis
  proof (cases "assign_cells (snd (columns (heap s ! df) ! c)) rows values")
    case (Inl e)
    with False assms(1) show ?thesis by (simp add: iloc_setitem_def writes_within_refl)
  next
    case (Inr col)
    with False assms(1) have s': "s' = setitem s df c col" by (simp add: iloc_setitem_def)
    show ?thesis
      unfolding s'
    proof (rule setitem_writes_within)
      show "c < length (columns (heap s ! df))" using False by simp
      show "is_numeric_dtype col = is_numeric_dtype (snd (columns (heap s ! df) ! c))"
        by (rule assign_cells_frame(1)[OF Inr])
      show "column_length col = column_length (snd (columns (heap s ! df) ! c))"
        by (rule assign_cells_frame(2)[OF Inr])
      show "column_cell col r = column_cell (snd (columns (heap s ! df) ! c)) r" if "(r, c) \<notin> set ids" for r
        using that assms(2) by (intro assign_cells_frame(3)[OF Inr]) blast
    qed
  qed
qed

lemma getitem_in_set:
  "getitem xs (Position (int i)) = Inr x \<Longrightarrow> x \<in> set xs"
  by (auto split: if_splits)

lemma heap_log_fit [simp]: "heap (log_fit s c train rows) = heap s"
  by (simp add: log_fit_def)

lemma VanilaMICE_body_writes_within:
  assumes "VanilaMICE_body env df nan_ids i s = (s', res)"
  shows "writes_within nan_ids df s s'"
proof (cases "getitem nan_ids (Position (int i))")
  case (Inl e)
  with assms show ?thesis by (simp add: VanilaMICE_body_def writes_within_refl)
next
  case (Inr p)
  obtain row_id col_id where p: "p = (row_id, col_id)" by (cases p)
  have mem: "(row_id, col_id) \<in> set nan_ids"
    using getitem_in_set[OF Inr] p by simp
  have wr: "writes_within nan_ids df s s2"
    if "iloc_setitem_cell (log_fit s col_id train rows) df row_id col_id vals = (s2, r)"
    for train rows vals s2 r
    using iloc_setitem_cell_writes_within[OF that mem]
    by (auto intro: writes_within_heap_eq[OF heap_log_fit])
  from assms show ?thesis
    unfolding VanilaMICE_body_def Inr p
    by (auto simp: Let_def writes_within_refl same_heap_writes_within
             split: if_splits sum.splits intro: wr)
qed

lemma FastMICE_body_raises:
  "FastMICE_body env df nan_ids column_id s = (s, Inl TypeError)"
  by (simp add: FastMICE_body_def)

lemma for_loop_rel:
  assumes "\<And>s. R s s"
      and "\<And>s1 s2 s3. R s1 s2 \<Longrightarrow> R s2 s3 \<Longrightarrow> R s1 s3"
      and "\<And>x s s' r. body x s = (s', r) \<Longrightarrow> R s s'"
  shows "for_loop body xs s = (s', r) \<Longrightarrow> R s s'"
proof (induction xs arbitrary: s)
  case Nil
  then show ?case using assms(1) by simp
next
  case (Cons x xs)
  obtain s1 r1 where b: "body x s = (s1, r1)" by (cases "body x s")
  have R1: "R s s1" by (rule assms(3)[OF b])
  show ?case
  proof (cases r1)
    case (Inl e)
    with Cons.prems b R1 show ?thesis by simp
  next
    case (Inr u)
    with Cons.prems b have "for_loop body xs s1 = (s', r)" by simp
    from Cons.IH[OF this] R1 show ?thesis by (rule assms(2)[rotated])
  qed
qed

lemma VanilaMICE_transform_frame:
  assumes "VanilaMICE_transform env m s df cm ids i = (s', res)"
  shows "writes_within ids df s s' \<and> (\<forall>d. res = Inr d \<longrightarrow> d = df)"
proof -
  let ?s0 = "s\<lparr>draws := Suc (draws s)\<rparr>"
  obtain s1 r1 where l: "for_loop (VanilaMICE_body env df ids) (permutation env (draws s) (length ids)) ?s0 = (s1, r1)"
    by (cases "for_loop (VanilaMICE_body env df ids) (permutation env (draws s) (length ids)) ?s0")
  have "writes_within ids df ?s0 s1"
    by (rule for_loop_rel[where R = "writes_within ids df", OF writes_within_refl writes_within_trans
          VanilaMICE_body_writes_within l])
  then have "writes_within ids df s s1"
    by (rule writes_within_heap_eq[rotated]) simp
  with assms l show ?thesis
    by (auto simp: VanilaMICE_transform_def Let_def split: sum.splits)
qed

lemma FastMICE_transform_frame:
  assumes "FastMICE_transform env m s df cm ids i = (s', res)"
  shows "writes_within ids df s s' \<and> (\<forall>d. res = Inr d \<longrightarrow> d = df)"
proof -
  let ?s0 = "s\<lparr>draws := Suc (draws s)\<rparr>"
  obtain s1 r1 where l: "for_loop (FastMICE_body env df ids) (permutation env (draws s) (length ids)) ?s0 = (s1, r1)"
    by (cases "for_loop (FastMICE_body env df ids) (permutation env (draws s) (length ids)) ?s0")
  have "writes_within ids df ?s0 s1"
    by (rule for_loop_rel[where R = "writes_within ids df" and body = "FastMICE_body env df ids",
          OF writes_within_refl writes_within_trans _ l])
       (auto simp: FastMICE_body_raises writes_within_refl)
  then have "writes_within ids df s s1"
    by (rule writes_within_heap_eq[rotated]) simp
  with assms l show ?thesis
    by (auto simp: FastMICE_transform_def Let_def split: sum.splits)
qed

lemma transform_frame:
  assumes "transform v env m s df cm ids i = (s', res)"
  shows "writes_within ids df s s' \<and> (\<forall>d. res = Inr d \<longrightarrow> d = df)"
  using assms
  by (cases v)
     (auto simp: SlowFastMICE_transform_def FastSlowMICE_transform_def split: if_splits
           dest: VanilaMICE_transform_frame FastMICE_transform_frame)

lemma benchmark_loop_frame:
  "benchmark_loop v env m df_original dcl cm ids iters d results s = (s', res)
   \<Longrightarrow> writes_within ids d s s'"
proof (induction iters arbitrary: s results)
  case Nil
  then show ?case by (simp add: writes_within_refl)
next
  case (Cons i rest)
  let ?s0 = "s\<lparr>clock_reads := Suc (clock_reads s)\<rparr>"
  obtain s1 r1 where ct: "transform v env m ?s0 d cm ids i = (s1, r1)"
    by (cases "transform v env m ?s0 d cm ids i")
  from transform_frame[OF ct] have w1: "writes_within ids d s s1" and same: "\<And>d'. r1 = Inr d' \<Longrightarrow> d' = d"
    by (auto intro: writes_within_heap_eq[rotated])
  show ?case
  proof (cases r1)
    case (Inl e)
    with Cons.prems ct w1 show ?thesis
      by (simp add: call_transform_four Let_def)
  next
    case (Inr d')
    with same have d': "d' = d" by simp
    let ?s2 = "s1\<lparr>clock_reads := Suc (clock_reads s1)\<rparr>"
    have w2: "writes_within ids d s ?s2"
      by (rule writes_within_trans[OF w1]) (simp add: same_heap_writes_within)
    show ?thesis
    proof (cases "iteration_loss env dcl (heap s1 ! df_original) (heap s1 ! d)")
      case (Inl e)
      with Cons.prems ct Inr d' w2 show ?thesis
        by (simp add: call_transform_four Let_def)
    next
      case l: (Inr l)
      with Cons.prems ct Inr d' obtain results' where
        "benchmark_loop v env m df_original dcl cm ids rest d results' ?s2 = (s', res)"
        by (simp add: call_transform_four Let_def)
      from Cons.IH[OF this] w2 show ?thesis
        by (rule writes_within_trans[rotated])
    qed
  qed
qed

lemma benchmark_unfold:
  assumes "df_missing < length (heap s)"
      and "imputation_error (index (heap s ! df_missing)) (columns (heap s ! df_missing)) = None"
  shows "benchmark v env m s df_original df_missing dcl =
           benchmark_loop v env m df_original dcl (columns_missing_of (heap s ! df_missing))
             (argwhere_isna (heap s ! df_missing)) (py_range m) (length (heap s)) []
             (s\<lparr>heap := heap s @ [initial_imputation (heap s ! df_missing),
                                  initial_imputation (heap s ! df_missing)],
                df_mean := Some (Suc (length (heap s)))\<rparr>)"
  using assms
  by (simp add: benchmark_def impute_initial_mean_or_mode_eq df_copy_def Let_def)

lemma benchmark_imputation_raises:
  assumes "df_missing < length (heap s)"
      and "imputation_error (index (heap s ! df_missing)) (columns (heap s ! df_missing)) = Some e"
  shows "benchmark v env m s df_original df_missing dcl =
           (s\<lparr>heap := heap s @ [initial_imputation (heap s ! df_missing)]\<rparr>, Inl e)"
  using assms
  by (simp add: benchmark_def impute_initial_mean_or_mode_eq Let_def)

lemma benchmark_frame:
  assumes "df_missing < length (heap s)"
      and "benchmark v env m s df_original df_missing dcl = (s', res)"
  shows "take (length (heap s)) (heap s') = heap s"
    and "same_outside (argwhere_isna (heap s ! df_missing))
           (initial_imputation (heap s ! df_missing)) (heap s' ! length (heap s))"
proof -
  let ?n = "length (heap s)"
  let ?T = "initial_imputation (heap s ! df_missing)"
  let ?s2 = "s\<lparr>heap := heap s @ [?T, ?T], df_mean := Some (Suc ?n)\<rparr>"
  have "take ?n (heap s') = heap s
      \<and> same_outside (argwhere_isna (heap s ! df_missing)) ?T (heap s' ! ?n)"
  proof (cases "imputation_error (index (heap s ! df_missing)) (columns (heap s ! df_missing))")
    case (Some e)
    from benchmark_imputation_raises[OF assms(1) Some, of v env m df_original dcl] assms(2)
    have "heap s' = heap s @ [?T]" by auto
    then show ?thesis by (simp add: same_outside_refl)
  next
    case None
    from assms(2) have "benchmark_loop v env m df_original dcl (columns_missing_of (heap s ! df_missing))
               (argwhere_isna (heap s ! df_missing)) (py_range m) ?n [] ?s2 = (s', res)"
      by (simp add: benchmark_unfold[OF assms(1) None])
    from benchmark_loop_frame[OF this]
    have w: "writes_within (argwhere_isna (heap s ! df_missing)) ?n ?s2 s'" .
    then have len: "length (heap s') = ?n + 2"
      and other: "\<And>a. a \<noteq> ?n \<Longrightarrow> heap s' ! a = (heap s @ [?T, ?T]) ! a"
      and same: "same_outside (argwhere_isna (heap s ! df_missing)) ((heap s @ [?T, ?T]) ! ?n) (heap s' ! ?n)"
      by (simp_all add: writes_within_def)
    have "take ?n (heap s') = heap s"
      using len other by (intro nth_equalityI) (auto simp: nth_append)
    moreover have "same_outside (argwhere_isna (heap s ! df_missing)) ?T (heap s' ! ?n)"
      using same by (simp add: nth_append)
    ultimately show ?thesis by simp
  qed
  then show "take ?n (heap s') = heap s"
    and "same_outside (argwhere_isna (heap s ! df_missing)) ?T (heap s' ! ?n)"
    by simp_all
qed

lemma differing_positions_subset:
  assumes "same_outside ids t t'"
  shows "set (differing_positions t' t) \<subseteq> set ids"
  using assms
  by (auto simp: differing_positions_def same_outside_def split: if_splits)

lemma differing_positions_same: "differing_positions t t = []"
  by (simp add: differing_positions_def)

lemma fill_missing_values_returns:
  assumes "df < length (heap s)"
      and "fill_missing_values v env m s df = (s', Inr d)"
  shows "heap s' ! d = initial_imputation (heap s ! df)"
proof (cases "0 < m")
  case True
  from fill_missing_values_raises[OF this, of v env s df] assms(2) show ?thesis by simp
next
  case False
  then have "py_range m = []" by (simp add: py_range_Nil)
  with assms show ?thesis
    by (auto simp: fill_missing_values_def impute_initial_mean_or_mode_eq split: option.splits)
qed

text \<open>
  C4. For every variant and every missing frame \<open>df_missing\<close> of the heap: in the state
  that \<^verbatim>\<open>benchmark\<close> leaves (after its last pass, or at the exception that ended it)
  the imputed frame, the object created at address \<open>length (heap s)\<close>, differs from the
  mean/mode initial imputation only at positions of the missing-position list taken
  from the input before imputation; all objects that existed before the call, the input
  among them, are unchanged. The same holds for the frame that \<^verbatim>\<open>fill_missing_values\<close>
  returns, whenever it returns one.
\<close>

theorem observed_cells_never_written:
  assumes "df_missing < length (heap s)"
  shows "set (differing_positions
                (heap (fst (benchmark v env max_iter s df_original df_missing drop_columns_loss)) ! length (heap s))
                (initial_imputation (heap s ! df_missing)))
           \<subseteq> set (argwhere_isna (heap s ! df_missing))
       \<and> take (length (heap s)) (heap (fst (benchmark v env max_iter s df_original df_missing drop_columns_loss)))
           = heap s
       \<and> (\<forall>d. snd (fill_missing_values v env max_iter s df_missing) = Inr d \<longrightarrow>
            set (differing_positions (heap (fst (fill_missing_values v env max_iter s df_missing)) ! d)
                   (initial_imputation (heap s ! df_missing)))
              \<subseteq> set (argwhere_isna (heap s ! df_missing)))"
proof (intro conjI allI impI)
  obtain s' res where b: "benchmark v env max_iter s df_original df_missing drop_columns_loss = (s', res)"
    by (cases "benchmark v env max_iter s df_original df_missing drop_columns_loss")
  show "set (differing_positions
                (heap (fst (benchmark v env max_iter s df_original df_missing drop_columns_loss)) ! length (heap s))
                (initial_imputation (heap s ! df_missing)))
           \<subseteq> set (argwhere_isna (heap s ! df_missing))"
    using differing_positions_subset[OF benchmark_frame(2)[OF assms b]] by (simp add: b)
  show "take (length (heap s)) (heap (fst (benchmark v env max_iter s df_original df_missing drop_columns_loss)))
           = heap s"
    using benchmark_frame(1)[OF assms b] by (simp add: b)
next
  fix d
  assume r: "snd (fill_missing_values v env max_iter s df_missing) = Inr d"
  obtain s' where "fill_missing_values v env max_iter s df_missing = (s', Inr d)"
    using r by (cases "fill_missing_values v env max_iter s df_missing") auto
  from fill_missing_values_returns[OF assms this] this
  show "set (differing_positions (heap (fst (fill_missing_values v env max_iter s df_missing)) ! d)
                   (initial_imputation (heap s ! df_missing)))
              \<subseteq> set (argwhere_isna (heap s ! df_missing))"
    by (simp add: differing_positions_same)
qed

theorem observed_cells_never_written_witness:
  "set (differing_positions
          (heap (fst (benchmark VanilaMICE example_env 1 (initial_state [frame_complete, frame_missing]) 0 1 [])) ! 2)
          (initial_imputation frame_missing))
     \<subseteq> set (argwhere_isna frame_missing)
   \<and> differing_positions
          (heap (fst (benchmark VanilaMICE example_env 1 (initial_state [frame_complete, frame_missing]) 0 1 [])) ! 2)
          (initial_imputation frame_missing) = [(0, 0)]"
proof -
  have valid: "1 < length (heap (initial_state [frame_complete, frame_missing]))"
    by (simp add: initial_state_def)
  have len: "length (heap (initial_state [frame_complete, frame_missing])) = 2"
    and nth1: "heap (initial_state [frame_complete, frame_missing]) ! 1 = frame_missing"
    by (simp_all add: initial_state_def)
  have ev: "differing_positions
          (heap (fst (benchmark VanilaMICE example_env 1 (initial_state [frame_complete, frame_missing]) 0 1 [])) ! 2)
          (initial_imputation frame_missing) = [(0, 0)]"
    by code_simp
  from observed_cells_never_written[OF valid, of VanilaMICE example_env 1 0 "[]"]
  have "set (differing_positions
          (heap (fst (benchmark VanilaMICE example_env 1 (initial_state [frame_complete, frame_missing]) 0 1 []))
             ! length (heap (initial_state [frame_complete, frame_missing])))
          (initial_imputation (heap (initial_state [frame_complete, frame_missing]) ! 1)))
     \<subseteq> set (argwhere_isna (heap (initial_state [frame_complete, frame_missing]) ! 1))"
    by (rule conjunct1)
  then show ?thesis
    unfolding len nth1 using ev by (rule conjI)
qed

section \<open>The loss\<close>

section \<open>The loss\<close>

lemma dropna_complete: "None \<notin> set xs \<Longrightarrow> map Some (dropna xs) = xs"
proof (induction xs)
  case Nil
  then show ?case by (simp add: dropna_def)
next
  case (Cons x xs)
  then show ?case by (cases x) (auto simp: dropna_def)
qed

lemma none_free: "list_all (\<lambda>x. x \<noteq> None) xs \<longleftrightarrow> None \<notin> set xs"
proof (induction xs)
  case Nil
  then show ?case by simp
next
  case (Cons x xs)
  then show ?case by (cases x) auto
qed

lemma none_free_values:
  "list_all (\<lambda>x. case x of None \<Rightarrow> False | Some y \<Rightarrow> to_float64 env y \<noteq> None) xs
     \<longleftrightarrow> None \<notin> set (map (cell_value env) xs)"
proof (induction xs)
  case Nil
  then show ?case by simp
next
  case (Cons x xs)
  then show ?case by (cases x) auto
qed

lemma column_values_readable:
  "(\<exists>vs. column_values env c = Inr vs) \<longleftrightarrow> readable_column env c"
proof (cases c)
  case (Numeric xs)
  show ?thesis unfolding Numeric readable_column.simps none_free by simp
next
  case (Categorical xs)
  show ?thesis unfolding Categorical readable_column.simps none_free_values by simp
qed

lemma column_values_error: "column_values env c = Inl e \<Longrightarrow> e = ValueError"
  by (cases c) (auto split: if_splits)

lemma check_columns_readable:
  "(\<exists>A. check_columns env cols = Inr A) \<longleftrightarrow> list_all (\<lambda>(n, c). readable_column env c) cols"
proof (induction cols)
  case Nil
  then show ?case by simp
next
  case (Cons p cols)
  obtain n c where p: "p = (n, c)" by (cases p)
  show ?case
    using Cons.IH column_values_readable[of env c]
    by (auto simp: p split: sum.splits)
qed

lemma check_columns_error: "check_columns env cols = Inl e \<Longrightarrow> e = ValueError"
  by (induction cols) (auto split: sum.splits dest: column_values_error)

lemma check_array_readable:
  "(\<exists>A. check_array env t = Inr A) \<longleftrightarrow> index t \<noteq> [] \<and> columns t \<noteq> [] \<and> readable env t"
  using check_columns_readable[of env "columns t"]
  by (auto simp: check_array_def readable_def)

lemma check_array_error: "check_array env t = Inl e \<Longrightarrow> e = ValueError"
  by (auto simp: check_array_def split: if_splits dest: check_columns_error)

lemma check_columns_length: "check_columns env cols = Inr A \<Longrightarrow> length A = length cols"
  by (induction cols arbitrary: A) (auto split: sum.splits)

lemma compute_loss_error: "compute_loss env a b = Inl e \<Longrightarrow> e = ValueError"
  by (auto simp: compute_loss_def mean_squared_error_def split: if_splits sum.splits
           dest: check_array_error)

lemma compute_loss_defined:
  "(\<exists>l. compute_loss env a b = Inr l) \<longleftrightarrow>
     readable env a \<and> readable env b \<and> index a \<noteq> [] \<and> columns a \<noteq> [] \<and>
     length (index a) = length (index b) \<and> length (columns a) = length (columns b)"
proof
  assume "\<exists>l. compute_loss env a b = Inr l"
  then obtain A B where len: "length (index a) = length (index b)"
    and A: "check_array env a = Inr A" and B: "check_array env b = Inr B"
    and AB: "length A = length B"
    by (auto simp: compute_loss_def mean_squared_error_def split: if_splits sum.splits)
  from A B have ra: "index a \<noteq> [] \<and> columns a \<noteq> [] \<and> readable env a"
    and rb: "index b \<noteq> [] \<and> columns b \<noteq> [] \<and> readable env b"
    using check_array_readable by blast+
  from A B have "check_columns env (columns a) = Inr A" "check_columns env (columns b) = Inr B"
    by (auto simp: check_array_def split: if_splits)
  then have "length A = length (columns a)" "length B = length (columns b)"
    by (auto dest: check_columns_length)
  with AB len ra rb
  show "readable env a \<and> readable env b \<and> index a \<noteq> [] \<and> columns a \<noteq> [] \<and>
     length (index a) = length (index b) \<and> length (columns a) = length (columns b)"
    by simp
next
  assume c: "readable env a \<and> readable env b \<and> index a \<noteq> [] \<and> columns a \<noteq> [] \<and>
     length (index a) = length (index b) \<and> length (columns a) = length (columns b)"
  then have "index b \<noteq> []" "columns b \<noteq> []" by auto
  with c obtain A B where A: "check_array env a = Inr A" and B: "check_array env b = Inr B"
    using check_array_readable by blast
  then have "check_columns env (columns a) = Inr A" "check_columns env (columns b) = Inr B"
    by (auto simp: check_array_def split: if_splits)
  then have "length A = length (columns a)" "length B = length (columns b)"
    by (auto dest: check_columns_length)
  then have "length A = length B"
    using c by simp
  with A B c show "\<exists>l. compute_loss env a b = Inr l"
    by (simp add: compute_loss_def mean_squared_error_def)
qed

lemma retained_eq:
  "retained dcl t = (if droppable dcl t then Inr (kept dcl t) else Inl KeyError)"
  by (cases dcl) (auto simp: retained_def drop_columns_def droppable_def kept_def list_all_iff)

lemma iteration_loss_eq:
  "iteration_loss env dcl a b =
     (if droppable dcl a \<and> droppable dcl b then compute_loss env (kept dcl a) (kept dcl b)
      else Inl KeyError)"
  by (simp add: iteration_loss_def retained_eq)

lemma compute_loss_raises:
  assumes "\<not> readable env a \<or> \<not> readable env b"
  shows "compute_loss env a b = Inl ValueError"
proof (cases "compute_loss env a b")
  case (Inl e)
  then show ?thesis using compute_loss_error by blast
next
  case (Inr l)
  then have "readable env a \<and> readable env b" using compute_loss_defined by blast
  with assms show ?thesis by blast
qed

lemma readable_no_unreadable_rows:
  assumes "readable_column env col"
  shows "unreadable_rows env col = []"
proof (cases col)
  case (Numeric xs)
  then show ?thesis by simp
next
  case (Categorical xs)
  have "\<not> (case xs ! r of None \<Rightarrow> False | Some y \<Rightarrow> to_float64 env y = None)"
    if "r < length xs" for r
  proof -
    from assms have "\<forall>r<length xs. case xs ! r of None \<Rightarrow> False | Some y \<Rightarrow> to_float64 env y \<noteq> None"
      unfolding Categorical readable_column.simps list_all_length .
    with that
    have "case xs ! r of None \<Rightarrow> False | Some y \<Rightarrow> to_float64 env y \<noteq> None"
      by blast
    then show ?thesis by (cases "xs ! r") auto
  qed
  then show ?thesis
    unfolding Categorical unreadable_rows.simps filter_empty_conv by simp
qed

lemma unreadable_not_readable:
  assumes "(n, col) \<in> set (columns t)" and "n \<notin> set dcl" and "\<not> readable_column env col"
  shows "\<not> readable env (kept dcl t)"
proof
  assume "readable env (kept dcl t)"
  with assms(1,2) have "readable_column env col"
    by (auto simp: readable_def kept_def list_all_iff)
  with assms(3) show False by simp
qed

lemma same_outside_names:
  assumes "same_outside ids t t'"
  shows "map fst (columns t') = map fst (columns t)"
  using assms by (intro nth_equalityI) (auto simp: same_outside_def)

lemma imputed_columns_length [simp]: "length (imputed_columns idx cols) = length cols"
  by (induction cols) (auto split: sum.splits)

lemma imputed_columns_names: "map fst (imputed_columns idx cols) = map fst cols"
  by (induction cols) (auto split: sum.splits)

lemma imputed_columns_nth:
  "j < length cols \<Longrightarrow>
   imputed_columns idx cols ! j = cols ! j \<or>
   (\<exists>col'. filled idx (snd (cols ! j)) = Inr col' \<and> imputed_columns idx cols ! j = (fst (cols ! j), col'))"
proof (induction cols arbitrary: j)
  case Nil
  then show ?case by simp
next
  case (Cons p cols)
  obtain n col where p: "p = (n, col)" by (cases p)
  show ?case
  proof (cases "filled idx col")
    case (Inl e)
    then show ?thesis by (simp add: p)
  next
    case (Inr col')
    show ?thesis
    proof (cases j)
      case 0
      with Inr show ?thesis by (simp add: p)
    next
      case (Suc k)
      with Cons.prems have "k < length cols" by simp
      from Cons.IH[OF this] Inr Suc show ?thesis by (simp add: p)
    qed
  qed
qed

lemma droppable_names:
  "map fst (columns t') = map fst (columns t) \<Longrightarrow> droppable dcl t' = droppable dcl t"
  by (simp add: droppable_def)

lemma droppable_initial_imputation [simp]: "droppable dcl (initial_imputation t) = droppable dcl t"
  by (rule droppable_names) (simp add: initial_imputation_def imputed_columns_names)

lemma argwhere_isna_isna:
  "(r, c) \<in> set (argwhere_isna t) \<Longrightarrow> isna (snd (columns t ! c)) r"
  by (auto simp: argwhere_isna_def split: if_splits)

lemma filled_present:
  assumes "filled idx (Categorical xs) = Inr col'"
      and "r < length xs" and "r < length idx" and "xs ! r = Some y"
  shows "\<exists>ys. col' = Categorical ys \<and> r < length ys \<and> ys ! r = Some y"
  using assms
  by (auto simp: filled_def fillna_series_def split: sum.splits)

lemma unreadable_cell_stays:
  assumes col: "(n, col) \<in> set (columns t)" and r: "r \<in> set (unreadable_rows env col)"
      and idx: "r < length (index t)"
      and same: "same_outside (argwhere_isna t) (initial_imputation t) F"
  shows "\<exists>col'. (n, col') \<in> set (columns F) \<and> \<not> readable_column env col'"
proof -
  from r obtain xs where xs: "col = Categorical xs" by (cases col) auto
  from r xs obtain y where rx: "r < length xs" and y: "xs ! r = Some y" and f: "to_float64 env y = None"
    by (auto split: option.splits)
  from col obtain j where j: "j < length (columns t)" and nth: "columns t ! j = (n, col)"
    by (auto simp: in_set_conv_nth)
  let ?T = "initial_imputation t"
  have "\<exists>ys. columns ?T ! j = (n, Categorical ys) \<and> r < length ys \<and> ys ! r = Some y"
  proof -
    from imputed_columns_nth[OF j, of "index t"]
    show ?thesis
    proof
      assume "imputed_columns (index t) (columns t) ! j = columns t ! j"
      then show ?thesis using nth xs rx y by (simp add: initial_imputation_def)
    next
      assume "\<exists>col'. filled (index t) (snd (columns t ! j)) = Inr col' \<and>
                imputed_columns (index t) (columns t) ! j = (fst (columns t ! j), col')"
      then obtain col' where fl: "filled (index t) (Categorical xs) = Inr col'"
        and im: "imputed_columns (index t) (columns t) ! j = (n, col')"
        using nth xs by auto
      from filled_present[OF fl rx idx y] im show ?thesis
        by (auto simp: initial_imputation_def)
    qed
  qed
  then obtain ys where T: "columns ?T ! j = (n, Categorical ys)" and ry: "r < length ys"
    and yy: "ys ! r = Some y" by blast
  have jT: "j < length (columns ?T)" using j by (simp add: initial_imputation_def)
  have notin: "(r, j) \<notin> set (argwhere_isna t)"
    using argwhere_isna_isna[of r j t] nth xs y by auto
  from same jT T notin have len: "j < length (columns F)"
    and name: "fst (columns F ! j) = n"
    and kind: "\<not> is_numeric_dtype (snd (columns F ! j))"
    and clen: "column_length (snd (columns F ! j)) = length ys"
    and cell: "cell_at F r j = cell_at ?T r j"
    by (auto simp: same_outside_def)
  from kind obtain zs where zs: "snd (columns F ! j) = Categorical zs"
    by (cases "snd (columns F ! j)") auto
  from cell zs T yy have zr: "zs ! r = Some y" by (simp add: cell_at_def)
  from clen zs ry have rz: "r < length zs" by simp
  from zr rz f have "r \<in> set (unreadable_rows env (Categorical zs))" by simp
  then have "unreadable_rows env (Categorical zs) \<noteq> []" by (metis empty_iff empty_set)
  then have "\<not> readable_column env (Categorical zs)"
    using readable_no_unreadable_rows by blast
  moreover from len name zs have "(n, Categorical zs) \<in> set (columns F)"
    by (metis nth_mem prod.collapse)
  ultimately show ?thesis by blast
qed

lemma py_range_Cons: "0 < m \<Longrightarrow> py_range m = 0 # map int [1..<nat m]"
  by (simp add: py_range_def upt_conv_Cons)

lemma benchmark_first_pass_raises:
  assumes m: "0 < m" and o: "df_original < length (heap s)" and d: "df_missing < length (heap s)"
      and cell: "(\<exists>n col. (n, col) \<in> set (columns (heap s ! df_original)) \<and> n \<notin> set dcl \<and>
                    \<not> readable_column env col) \<or>
                 (\<exists>n col r. (n, col) \<in> set (columns (heap s ! df_missing)) \<and> n \<notin> set dcl \<and>
                    r \<in> set (unreadable_rows env col) \<and> r < length (index (heap s ! df_missing)))"
  shows "snd (benchmark v env m s df_original df_missing dcl) =
           Inl (case imputation_error (index (heap s ! df_missing)) (columns (heap s ! df_missing)) of
                  Some e \<Rightarrow> e
                | None \<Rightarrow>
                    (case snd (first_transform v env m s df_missing) of
                       Inl e \<Rightarrow> e
                     | Inr df_imputed \<Rightarrow>
                         if droppable dcl (heap s ! df_original) \<and> droppable dcl (heap s ! df_missing)
                         then ValueError else KeyError))"
proof (cases "imputation_error (index (heap s ! df_missing)) (columns (heap s ! df_missing))")
  case (Some e)
  then show ?thesis by (simp add: benchmark_imputation_raises[OF d Some])
next
  case None
  let ?k = "length (heap s)"
  let ?T = "initial_imputation (heap s ! df_missing)"
  let ?ids = "argwhere_isna (heap s ! df_missing)"
  let ?cm = "columns_missing_of (heap s ! df_missing)"
  obtain s1 r1 where ft: "first_transform v env m s df_missing = (s1, r1)"
    by (cases "first_transform v env m s df_missing")
  then have tr: "transform v env m (benchmark_entry s df_missing) ?k ?cm ?ids 0 = (s1, r1)"
    by (simp add: first_transform_def)
  from transform_frame[OF tr] have w: "writes_within ?ids ?k (benchmark_entry s df_missing) s1"
    and same: "\<And>d'. r1 = Inr d' \<Longrightarrow> d' = ?k" by auto
  from tr have entry: "transform v env m
        (s\<lparr>heap := heap s @ [?T, ?T], df_mean := Some (Suc ?k), clock_reads := Suc (clock_reads s)\<rparr>)
        ?k ?cm ?ids 0 = (s1, r1)"
    by (simp add: benchmark_entry_def)
  show ?thesis
  proof (cases r1)
    case (Inl e)
    with entry show ?thesis
      unfolding benchmark_unfold[OF d None] py_range_Cons[OF m]
      by (simp add: call_transform_four entry Let_def None ft)
  next
    case (Inr d')
    with same have d': "d' = ?k" by simp
    from w o have orig: "heap s1 ! df_original = heap s ! df_original"
      by (simp add: writes_within_def benchmark_entry_def nth_append)
    from w have F: "same_outside ?ids ?T (heap s1 ! ?k)"
      by (simp add: writes_within_def benchmark_entry_def nth_append)
    have dropF: "droppable dcl (heap s1 ! ?k) = droppable dcl (heap s ! df_missing)"
      using droppable_names[OF same_outside_names[OF F], of dcl] by simp
    have bad: "\<not> readable env (kept dcl (heap s ! df_original)) \<or> \<not> readable env (kept dcl (heap s1 ! ?k))"
      using cell
    proof
      assume "\<exists>n col. (n, col) \<in> set (columns (heap s ! df_original)) \<and> n \<notin> set dcl \<and>
                    \<not> readable_column env col"
      then show ?thesis using unreadable_not_readable by blast
    next
      assume "\<exists>n col r. (n, col) \<in> set (columns (heap s ! df_missing)) \<and> n \<notin> set dcl \<and>
                    r \<in> set (unreadable_rows env col) \<and> r < length (index (heap s ! df_missing))"
      then obtain n col r where c: "(n, col) \<in> set (columns (heap s ! df_missing))" and nd: "n \<notin> set dcl"
        and r: "r \<in> set (unreadable_rows env col)" and ri: "r < length (index (heap s ! df_missing))"
        by blast
      from unreadable_cell_stays[OF c r ri F]
      obtain col' where "(n, col') \<in> set (columns (heap s1 ! ?k))" "\<not> readable_column env col'"
        by blast
      from unreadable_not_readable[OF this(1) nd this(2)] show ?thesis by simp
    qed
    have loss: "iteration_loss env dcl (heap s1 ! df_original) (heap s1 ! ?k) =
            Inl (if droppable dcl (heap s ! df_original) \<and> droppable dcl (heap s ! df_missing)
                 then ValueError else KeyError)"
      using compute_loss_raises[OF bad] by (simp add: iteration_loss_eq orig dropF)
    from entry Inr d' loss show ?thesis
      unfolding benchmark_unfold[OF d None] py_range_Cons[OF m]
      by (simp add: call_transform_four entry Let_def None ft)
  qed
qed

lemma benchmark_without_iterations:
  assumes "max_iter \<le> 0" and "df_missing < length (heap s)"
      and "imputation_error (index (heap s ! df_missing)) (columns (heap s ! df_missing)) = None"
  shows "snd (benchmark v env max_iter s df_original df_missing dcl) = Inr []"
  unfolding benchmark_unfold[OF assms(2,3)] using assms(1) by (simp add: py_range_def)

lemma benchmark_single_pass:
  assumes o: "df_original < length (heap s)" and d: "df_missing < length (heap s)"
      and imp: "imputation_error (index (heap s ! df_missing)) (columns (heap s ! df_missing)) = None"
      and ft: "first_transform v env 1 s df_missing = (s1, Inr df_imputed)"
      and loss: "iteration_loss env dcl (heap s ! df_original) (heap s1 ! df_imputed) = Inr l"
  shows "snd (benchmark v env 1 s df_original df_missing dcl) =
           Inr [\<lparr>iter = 0, time_seconds = time env (clock_reads s1) - time env (clock_reads s), loss = l\<rparr>]"
proof -
  let ?k = "length (heap s)"
  let ?T = "initial_imputation (heap s ! df_missing)"
  let ?ids = "argwhere_isna (heap s ! df_missing)"
  let ?cm = "columns_missing_of (heap s ! df_missing)"
  from ft have tr: "transform v env 1 (benchmark_entry s df_missing) ?k ?cm ?ids 0 = (s1, Inr df_imputed)"
    by (simp add: first_transform_def)
  from transform_frame[OF tr] have w: "writes_within ?ids ?k (benchmark_entry s df_missing) s1"
    by auto
  from w o have orig: "heap s1 ! df_original = heap s ! df_original"
    by (simp add: writes_within_def benchmark_entry_def nth_append)
  from tr have entry: "transform v env 1
        (s\<lparr>heap := heap s @ [?T, ?T], df_mean := Some (Suc ?k), clock_reads := Suc (clock_reads s)\<rparr>)
        ?k ?cm ?ids 0 = (s1, Inr df_imputed)"
    by (simp add: benchmark_entry_def)
  have one: "py_range 1 = [0]" by (simp add: py_range_def)
  from entry loss show ?thesis
    unfolding benchmark_unfold[OF d imp] one
    by (simp add: call_transform_four Let_def orig)
qed

lemma average_map_zip:
  assumes "length xs = k" and "length ys = k"
  shows "average (map f (zip xs ys)) = (\<Sum>i<k. f (xs ! i, ys ! i)) / real k"
proof -
  have "sum_list (map f (zip xs ys)) = (\<Sum>i<k. f (xs ! i, ys ! i))"
    using assms by (simp add: sum_list_sum_nth atLeast0LessThan)
  then show ?thesis using assms by (simp add: average_def)
qed

lemma column_values_length:
  assumes "column_values env col = Inr vs"
  shows "length vs = column_length col"
proof (cases col)
  case (Numeric xs)
  with assms have "None \<notin> set xs" and vs: "vs = dropna xs" by (auto split: if_splits)
  from dropna_complete[OF this(1)] have "length (map Some (dropna xs)) = length xs" by simp
  with vs Numeric show ?thesis by simp
next
  case (Categorical xs)
  with assms have "None \<notin> set (map (cell_value env) xs)" and vs: "vs = dropna (map (cell_value env) xs)"
    by (auto split: if_splits)
  from dropna_complete[OF this(1)]
  have "length (map Some (dropna (map (cell_value env) xs))) = length (map (cell_value env) xs)" by simp
  with vs Categorical show ?thesis by simp
qed

lemma column_values_nth:
  assumes "column_values env col = Inr vs" and "r < length vs"
  shows "vs ! r = cell_number env (column_cell col r)"
proof (cases col)
  case (Numeric xs)
  with assms have "None \<notin> set xs" and vs: "vs = dropna xs" by (auto split: if_splits)
  from dropna_complete[OF this(1)] vs have "xs = map Some vs" by simp
  with assms(2) Numeric show ?thesis by simp
next
  case (Categorical xs)
  with assms have "None \<notin> set (map (cell_value env) xs)" and vs: "vs = dropna (map (cell_value env) xs)"
    by (auto split: if_splits)
  from dropna_complete[OF this(1)] vs have eq: "map (cell_value env) xs = map Some vs" by simp
  then have "length xs = length vs" by (metis length_map)
  with eq assms(2) have "cell_value env (xs ! r) = Some (vs ! r)" by (metis nth_map)
  with Categorical show ?thesis by simp
qed

lemma check_columns_nth:
  "check_columns env cols = Inr A \<Longrightarrow> c < length cols \<Longrightarrow>
   column_values env (snd (cols ! c)) = Inr (A ! c)"
proof (induction cols arbitrary: A c)
  case Nil
  then show ?case by simp
next
  case (Cons p cols)
  obtain n col where p: "p = (n, col)" by (cases p)
  from Cons.prems(1) obtain vs rest where vs: "column_values env col = Inr vs"
    and rest: "check_columns env cols = Inr rest" and A: "A = vs # rest"
    by (auto simp: p split: sum.splits)
  show ?case
  proof (cases c)
    case 0
    with vs A show ?thesis by (simp add: p)
  next
    case (Suc k)
    with Cons.prems(2) have "k < length cols" by simp
    from Cons.IH[OF rest this] Suc A show ?thesis by simp
  qed
qed

lemma checked_length:
  assumes "check_columns env (columns t) = Inr A" and "rectangular t" and "c < length (columns t)"
  shows "length (A ! c) = length (index t)"
proof -
  from assms(2,3) have "column_length (snd (columns t ! c)) = length (index t)"
    by (auto simp: rectangular_def list_all_length case_prod_unfold)
  with column_values_length[OF check_columns_nth[OF assms(1,3)]] show ?thesis by simp
qed

lemma checked_value_at:
  assumes "check_columns env (columns t) = Inr A" and "rectangular t"
      and "c < length (columns t)" and "r < length (index t)"
  shows "A ! c ! r = value_at env t r c"
  using column_values_nth[OF check_columns_nth[OF assms(1,3)], of r]
    checked_length[OF assms(1-3)] assms(4)
  by (simp add: value_at_def cell_at_def)

lemma compute_loss_Inr:
  assumes "compute_loss env a b = Inr l"
  obtains A B where "check_columns env (columns a) = Inr A" and "check_columns env (columns b) = Inr B"
    and "length A = length B" and "length (index a) = length (index b)"
    and "l = average (map (\<lambda>(x, y). average (map (\<lambda>(u, v). (u - v)\<^sup>2) (zip x y))) (zip A B))"
  using assms
  by (auto simp: compute_loss_def mean_squared_error_def check_array_def split: if_splits sum.splits)

lemma compute_loss_formula:
  assumes "compute_loss env a b = Inr l" and "rectangular a" and "rectangular b"
  shows "l = (\<Sum>c<length (columns a). \<Sum>r<length (index a). (value_at env a r c - value_at env b r c)\<^sup>2)
              / (real (length (index a)) * real (length (columns a)))"
proof -
  let ?m = "length (columns a)" and ?n = "length (index a)"
  from compute_loss_Inr[OF assms(1)]
  obtain A B where cca: "check_columns env (columns a) = Inr A" and ccb: "check_columns env (columns b) = Inr B"
    and lenAB: "length A = length B" and n: "length (index a) = length (index b)"
    and l: "l = average (map (\<lambda>(x, y). average (map (\<lambda>(u, v). (u - v)\<^sup>2) (zip x y))) (zip A B))"
    by blast
  have lenA: "length A = ?m" using check_columns_length[OF cca] by simp
  have lenB: "length B = ?m" using lenAB lenA by simp
  have mb: "length (columns b) = ?m" using check_columns_length[OF ccb] lenB by simp
  have inner: "average (map (\<lambda>(u, v). (u - v)\<^sup>2) (zip (A ! c) (B ! c)))
                 = (\<Sum>r<?n. (value_at env a r c - value_at env b r c)\<^sup>2) / real ?n" if "c < ?m" for c
  proof -
    have la: "length (A ! c) = ?n" using checked_length[OF cca assms(2) that] by simp
    have lb: "length (B ! c) = ?n" using checked_length[OF ccb assms(3), of c] that mb n by simp
    have "(\<Sum>i<?n. (case (A ! c ! i, B ! c ! i) of (u, v) \<Rightarrow> (u - v)\<^sup>2))
            = (\<Sum>r<?n. (value_at env a r c - value_at env b r c)\<^sup>2)"
    proof (rule sum.cong[OF refl])
      fix r assume "r \<in> {..<?n}"
      then have r: "r < ?n" by simp
      have "A ! c ! r = value_at env a r c" by (rule checked_value_at[OF cca assms(2) that r])
      moreover have "B ! c ! r = value_at env b r c"
        using checked_value_at[OF ccb assms(3), of c r] that r mb n by simp
      ultimately show "(case (A ! c ! r, B ! c ! r) of (u, v) \<Rightarrow> (u - v)\<^sup>2)
                         = (value_at env a r c - value_at env b r c)\<^sup>2"
        by simp
    qed
    with average_map_zip[OF la lb, of "\<lambda>(u, v). (u - v)\<^sup>2"] show ?thesis by simp
  qed
  have "l = (\<Sum>c<?m. (case (A ! c, B ! c) of (x, y) \<Rightarrow> average (map (\<lambda>(u, v). (u - v)\<^sup>2) (zip x y)))) / real ?m"
    unfolding l by (rule average_map_zip[OF lenA lenB])
  also have "(\<Sum>c<?m. (case (A ! c, B ! c) of (x, y) \<Rightarrow> average (map (\<lambda>(u, v). (u - v)\<^sup>2) (zip x y))))
               = (\<Sum>c<?m. (\<Sum>r<?n. (value_at env a r c - value_at env b r c)\<^sup>2) / real ?n)"
    by (rule sum.cong[OF refl]) (simp add: inner)
  also have "\<dots> / real ?m = (\<Sum>c<?m. \<Sum>r<?n. (value_at env a r c - value_at env b r c)\<^sup>2) / (real ?n * real ?m)"
    by (simp add: sum_divide_distrib)
  finally show ?thesis .
qed

text \<open>
  C10. The claim: \<^verbatim>\<open>compute_loss\<close> is defined only when every retained column is
  numeric, so \<^verbatim>\<open>benchmark\<close> raises when a non-numeric column is retained.
  \<^verbatim>\<open>mean_squared_error\<close> converts every cell to a float whatever the dtype of its
  column: the object column \<open>s\<close> of \<open>frame_digits\<close> holds the strings \<open>1\<close> and \<open>2\<close>,
  \<^verbatim>\<open>compute_loss\<close> gives a loss on it, and \<^verbatim>\<open>benchmark\<close> returns its record with that
  column retained, without and with a missing cell to predict. With \<open>max_iter = 0\<close>
  \<^verbatim>\<open>benchmark\<close> computes no loss and returns the empty list, also for the column of
  words \<open>x\<close>, \<open>y\<close>.
\<close>

theorem benchmark_gives_loss_with_object_column:
  "\<not> is_numeric_dtype (snd (columns frame_digits ! 1))
   \<and> compute_loss example_env frame_digits frame_digits_other = Inr 1
   \<and> snd (benchmark VanilaMICE example_env 1 (initial_state [frame_digits, frame_digits]) 0 1 [])
       = Inr [\<lparr>iter = 0, time_seconds = 1, loss = 0\<rparr>]
   \<and> snd (benchmark VanilaMICE example_env 1 (initial_state [frame_digits, frame_digits_missing]) 0 1 [])
       = Inr [\<lparr>iter = 0, time_seconds = 1, loss = 1681 / 4\<rparr>]
   \<and> snd (benchmark VanilaMICE example_env 0 (initial_state [frame_words, frame_words_missing]) 0 1 [])
       = Inr []"
  by code_simp

text \<open>
  C10, amended. \<^verbatim>\<open>compute_loss\<close> is \<^verbatim>\<open>mean_squared_error\<close> over all cells of all
  columns of both frames, every cell read as a float whatever the dtype of its column.
  It gives a loss exactly when every cell of both frames is present and reads as a
  number, the first frame has a row and a column, and the two frames have as many rows
  and as many columns as each other; every exception it raises is ValueError. For
  frames whose columns are as long as the index, the loss is the sum of the squared
  differences over all cells divided by the number of cells (in real arithmetic). In
  \<^verbatim>\<open>benchmark\<close> the frames compared are the original and the imputed frame without the
  columns of \<^verbatim>\<open>drop_columns_loss\<close>, and KeyError is raised when one of these labels
  is not a column. So \<^verbatim>\<open>benchmark\<close> with \<open>max_iter \<ge> 1\<close> raises when a column that is
  not in \<^verbatim>\<open>drop_columns_loss\<close> holds, in the original frame, a cell that is missing or
  does not read as a number, or, in the frame with the missing cells, a present cell
  that does not read as a number: the exception is that of the initial imputation or
  of the first pass when one of them raises, else KeyError when \<^verbatim>\<open>drop_columns_loss\<close>
  names a label that is not a column, else the ValueError of the loss. When the first
  pass returns and the loss of the two frames without the columns of
  \<^verbatim>\<open>drop_columns_loss\<close> is defined, \<^verbatim>\<open>benchmark\<close> with \<open>max_iter = 1\<close> returns one record
  holding that loss. With \<open>max_iter \<le> 0\<close> no loss is computed and the result is the
  empty list.
\<close>

theorem compute_loss_reads_every_retained_cell:
  "((\<exists>l. compute_loss env a b = Inr l) \<longleftrightarrow>
      readable env a \<and> readable env b \<and> index a \<noteq> [] \<and> columns a \<noteq> [] \<and>
      length (index a) = length (index b) \<and> length (columns a) = length (columns b))
   \<and> (compute_loss env a b = Inl e \<longrightarrow> e = ValueError)
   \<and> (compute_loss env a b = Inr l \<and> rectangular a \<and> rectangular b \<longrightarrow>
        l = (\<Sum>c<length (columns a). \<Sum>r<length (index a). (value_at env a r c - value_at env b r c)\<^sup>2)
              / (real (length (index a)) * real (length (columns a))))
   \<and> iteration_loss env drop_columns_loss a b =
        (if droppable drop_columns_loss a \<and> droppable drop_columns_loss b
         then compute_loss env (kept drop_columns_loss a) (kept drop_columns_loss b)
         else Inl KeyError)
   \<and> (0 < max_iter \<and> df_original < length (heap s) \<and> df_missing < length (heap s) \<and>
       n \<notin> set drop_columns_loss \<and>
       ((n, col) \<in> set (columns (heap s ! df_original)) \<and> \<not> readable_column env col \<or>
        (n, col) \<in> set (columns (heap s ! df_missing)) \<and> row \<in> set (unreadable_rows env col) \<and>
        row < length (index (heap s ! df_missing))) \<longrightarrow>
       snd (benchmark v env max_iter s df_original df_missing drop_columns_loss) =
         Inl (case imputation_error (index (heap s ! df_missing)) (columns (heap s ! df_missing)) of
                Some e' \<Rightarrow> e'
              | None \<Rightarrow>
                  (case snd (first_transform v env max_iter s df_missing) of
                     Inl e' \<Rightarrow> e'
                   | Inr df_imputed \<Rightarrow>
                       if droppable drop_columns_loss (heap s ! df_original) \<and>
                          droppable drop_columns_loss (heap s ! df_missing)
                       then ValueError else KeyError)))
   \<and> (df_original < length (heap s) \<and> df_missing < length (heap s) \<and>
       imputation_error (index (heap s ! df_missing)) (columns (heap s ! df_missing)) = None \<and>
       first_transform v env 1 s df_missing = (s1, Inr d) \<and>
       iteration_loss env drop_columns_loss (heap s ! df_original) (heap s1 ! d) = Inr l' \<longrightarrow>
       snd (benchmark v env 1 s df_original df_missing drop_columns_loss) =
         Inr [\<lparr>iter = 0, time_seconds = time env (clock_reads s1) - time env (clock_reads s),
               loss = l'\<rparr>])
   \<and> (max_iter \<le> 0 \<and> df_missing < length (heap s) \<and>
       imputation_error (index (heap s ! df_missing)) (columns (heap s ! df_missing)) = None \<longrightarrow>
       snd (benchmark v env max_iter s df_original df_missing drop_columns_loss) = Inr [])"
proof (intro conjI impI)
  show "(\<exists>l. compute_loss env a b = Inr l) \<longleftrightarrow>
      readable env a \<and> readable env b \<and> index a \<noteq> [] \<and> columns a \<noteq> [] \<and>
      length (index a) = length (index b) \<and> length (columns a) = length (columns b)"
    by (rule compute_loss_defined)
next
  assume "compute_loss env a b = Inl e"
  then show "e = ValueError" by (rule compute_loss_error)
next
  assume "compute_loss env a b = Inr l \<and> rectangular a \<and> rectangular b"
  then show "l = (\<Sum>c<length (columns a). \<Sum>r<length (index a). (value_at env a r c - value_at env b r c)\<^sup>2)
              / (real (length (index a)) * real (length (columns a)))"
    using compute_loss_formula by blast
next
  show "iteration_loss env drop_columns_loss a b =
        (if droppable drop_columns_loss a \<and> droppable drop_columns_loss b
         then compute_loss env (kept drop_columns_loss a) (kept drop_columns_loss b)
         else Inl KeyError)"
    by (rule iteration_loss_eq)
next
  assume h: "0 < max_iter \<and> df_original < length (heap s) \<and> df_missing < length (heap s) \<and>
       n \<notin> set drop_columns_loss \<and>
       ((n, col) \<in> set (columns (heap s ! df_original)) \<and> \<not> readable_column env col \<or>
        (n, col) \<in> set (columns (heap s ! df_missing)) \<and> row \<in> set (unreadable_rows env col) \<and>
        row < length (index (heap s ! df_missing)))"
  then have "(\<exists>n col. (n, col) \<in> set (columns (heap s ! df_original)) \<and> n \<notin> set drop_columns_loss \<and>
                    \<not> readable_column env col) \<or>
                 (\<exists>n col r. (n, col) \<in> set (columns (heap s ! df_missing)) \<and> n \<notin> set drop_columns_loss \<and>
                    r \<in> set (unreadable_rows env col) \<and> r < length (index (heap s ! df_missing)))"
    by blast
  with h show "snd (benchmark v env max_iter s df_original df_missing drop_columns_loss) =
         Inl (case imputation_error (index (heap s ! df_missing)) (columns (heap s ! df_missing)) of
                Some e' \<Rightarrow> e'
              | None \<Rightarrow>
                  (case snd (first_transform v env max_iter s df_missing) of
                     Inl e' \<Rightarrow> e'
                   | Inr df_imputed \<Rightarrow>
                       if droppable drop_columns_loss (heap s ! df_original) \<and>
                          droppable drop_columns_loss (heap s ! df_missing)
                       then ValueError else KeyError))"
    using benchmark_first_pass_raises[of max_iter df_original s df_missing drop_columns_loss env v]
    by blast
next
  assume "df_original < length (heap s) \<and> df_missing < length (heap s) \<and>
       imputation_error (index (heap s ! df_missing)) (columns (heap s ! df_missing)) = None \<and>
       first_transform v env 1 s df_missing = (s1, Inr d) \<and>
       iteration_loss env drop_columns_loss (heap s ! df_original) (heap s1 ! d) = Inr l'"
  then show "snd (benchmark v env 1 s df_original df_missing drop_columns_loss) =
         Inr [\<lparr>iter = 0, time_seconds = time env (clock_reads s1) - time env (clock_reads s),
               loss = l'\<rparr>]"
    using benchmark_single_pass by blast
next
  assume "max_iter \<le> 0 \<and> df_missing < length (heap s) \<and>
       imputation_error (index (heap s ! df_missing)) (columns (heap s ! df_missing)) = None"
  then show "snd (benchmark v env max_iter s df_original df_missing drop_columns_loss) = Inr []"
    using benchmark_without_iterations by blast
qed

theorem compute_loss_reads_every_retained_cell_witness:
  "compute_loss example_env frame_complete frame_predicted = Inr (1681 / 4)
   \<and> (\<Sum>c<2. \<Sum>r<2. (value_at example_env frame_complete r c - value_at example_env frame_predicted r c)\<^sup>2)
        / (2 * 2) = 1681 / 4
   \<and> (''s'', Categorical [Some (Str ''x''), Some (Str ''y'')]) \<in> set (columns frame_words_missing)
   \<and> unreadable_rows example_env (Categorical [Some (Str ''x''), Some (Str ''y'')]) = [0, 1]
   \<and> snd (first_transform VanilaMICE example_env 1 (initial_state [frame_words, frame_words_missing]) 1)
        = Inr 2
   \<and> snd (benchmark VanilaMICE example_env 1 (initial_state [frame_words, frame_words_missing]) 0 1 [])
        = Inl ValueError
   \<and> snd (benchmark VanilaMICE example_env 1 (initial_state [frame_words, frame_words_missing]) 0 1 [''q''])
        = Inl KeyError
   \<and> snd (benchmark VanilaMICE example_env 1 (initial_state [frame_words, frame_words_missing]) 0 1 [''s''])
        = Inr [\<lparr>iter = 0, time_seconds = 1, loss = 1681 / 2\<rparr>]
   \<and> snd (benchmark VanilaMICE example_env 0 (initial_state [frame_words, frame_words_missing]) 0 1 [])
        = Inr []"
proof -
  let ?s = "initial_state [frame_words, frame_words_missing]"
  let ?col = "Categorical [Some (Str ''x''), Some (Str ''y'')]"
  let ?s1 = "fst (first_transform VanilaMICE example_env 1 ?s 1)"
  have cl: "compute_loss example_env frame_complete frame_predicted = Inr (1681 / 4)"
    by code_simp
  have rect: "rectangular frame_complete \<and> rectangular frame_predicted"
    by (simp add: rectangular_def frame_complete_def frame_predicted_def)
  have dims: "length (columns frame_complete) = 2" "length (index frame_complete) = 2"
    by (simp_all add: frame_complete_def)
  have heap0: "heap ?s ! 0 = frame_words" and heap1: "heap ?s ! 1 = frame_words_missing"
    and len: "length (heap ?s) = 2"
    by (simp_all add: initial_state_def)
  have member: "(''s'', ?col) \<in> set (columns frame_words_missing)"
    by (simp add: frame_words_missing_def)
  have rows: "unreadable_rows example_env ?col = [0, 1]"
    by code_simp
  have imp: "imputation_error (index frame_words_missing) (columns frame_words_missing) = None"
    by code_simp
  have ft: "snd (first_transform VanilaMICE example_env 1 ?s 1) = Inr 2"
    by code_simp
  then have ft': "first_transform VanilaMICE example_env 1 ?s 1 = (?s1, Inr 2)"
    by (metis prod.collapse)
  have dr: "droppable [] frame_words \<and> droppable [] frame_words_missing"
    by (simp add: droppable_def)
  have drq: "\<not> droppable [''q''] frame_words"
    by (simp add: droppable_def frame_words_def)
  have il: "iteration_loss example_env [''s''] frame_words (heap ?s1 ! 2) = Inr (1681 / 2)"
    by code_simp
  have tm: "time example_env (clock_reads ?s1) - time example_env (clock_reads ?s) = 1"
    by code_simp
  note w1 = compute_loss_reads_every_retained_cell[of example_env frame_complete frame_predicted _ "1681 / 4"]
  from w1 cl rect
  have "1681 / 4 = (\<Sum>c<length (columns frame_complete). \<Sum>r<length (index frame_complete).
        (value_at example_env frame_complete r c - value_at example_env frame_predicted r c)\<^sup>2)
               / (real (length (index frame_complete)) * real (length (columns frame_complete)))"
    by blast
  then have f: "(\<Sum>c<2. \<Sum>r<2. (value_at example_env frame_complete r c
                   - value_at example_env frame_predicted r c)\<^sup>2) / (2 * 2) = 1681 / 4"
    unfolding dims by simp
  have hyp: "0 < (1::int) \<and> 0 < length (heap ?s) \<and> 1 < length (heap ?s) \<and> ''s'' \<notin> set [] \<and>
      ((''s'', ?col) \<in> set (columns (heap ?s ! 0)) \<and> \<not> readable_column example_env ?col \<or>
       (''s'', ?col) \<in> set (columns (heap ?s ! 1)) \<and> 0 \<in> set (unreadable_rows example_env ?col) \<and>
       0 < length (index (heap ?s ! 1)))"
    unfolding heap1 len rows using member by (simp add: frame_words_missing_def)
  have hypq: "0 < (1::int) \<and> 0 < length (heap ?s) \<and> 1 < length (heap ?s) \<and> ''s'' \<notin> set [''q''] \<and>
      ((''s'', ?col) \<in> set (columns (heap ?s ! 0)) \<and> \<not> readable_column example_env ?col \<or>
       (''s'', ?col) \<in> set (columns (heap ?s ! 1)) \<and> 0 \<in> set (unreadable_rows example_env ?col) \<and>
       0 < length (index (heap ?s ! 1)))"
    unfolding heap1 len rows using member by (simp add: frame_words_missing_def)
  note w2 = compute_loss_reads_every_retained_cell[where env = example_env and max_iter = 1
      and df_original = 0 and df_missing = 1 and s = ?s and n = "''s''" and col = ?col and row = 0
      and drop_columns_loss = "[]" and v = VanilaMICE]
  from w2 hyp
  have "snd (benchmark VanilaMICE example_env 1 ?s 0 1 []) =
         Inl (case imputation_error (index (heap ?s ! 1)) (columns (heap ?s ! 1)) of
                Some e' \<Rightarrow> e'
              | None \<Rightarrow>
                  (case snd (first_transform VanilaMICE example_env 1 ?s 1) of
                     Inl e' \<Rightarrow> e'
                   | Inr df_imputed \<Rightarrow>
                       if droppable [] (heap ?s ! 0) \<and> droppable [] (heap ?s ! 1)
                       then ValueError else KeyError))"
    by blast
  then have b1: "snd (benchmark VanilaMICE example_env 1 ?s 0 1 []) = Inl ValueError"
    unfolding heap0 heap1 imp ft using dr by simp
  note w3 = compute_loss_reads_every_retained_cell[where env = example_env and max_iter = 1
      and df_original = 0 and df_missing = 1 and s = ?s and n = "''s''" and col = ?col and row = 0
      and drop_columns_loss = "[''q'']" and v = VanilaMICE]
  from w3 hypq
  have "snd (benchmark VanilaMICE example_env 1 ?s 0 1 [''q'']) =
         Inl (case imputation_error (index (heap ?s ! 1)) (columns (heap ?s ! 1)) of
                Some e' \<Rightarrow> e'
              | None \<Rightarrow>
                  (case snd (first_transform VanilaMICE example_env 1 ?s 1) of
                     Inl e' \<Rightarrow> e'
                   | Inr df_imputed \<Rightarrow>
                       if droppable [''q''] (heap ?s ! 0) \<and> droppable [''q''] (heap ?s ! 1)
                       then ValueError else KeyError))"
    by blast
  then have b2: "snd (benchmark VanilaMICE example_env 1 ?s 0 1 [''q'']) = Inl KeyError"
    unfolding heap0 heap1 imp ft using drq by simp
  note w4 = compute_loss_reads_every_retained_cell[where env = example_env
      and df_original = 0 and df_missing = 1 and s = ?s and drop_columns_loss = "[''s'']"
      and v = VanilaMICE and ?s1.0 = ?s1 and d = 2 and l' = "1681 / 2"]
  have hyp4: "0 < length (heap ?s) \<and> 1 < length (heap ?s) \<and>
       imputation_error (index (heap ?s ! 1)) (columns (heap ?s ! 1)) = None \<and>
       first_transform VanilaMICE example_env 1 ?s 1 = (?s1, Inr 2) \<and>
       iteration_loss example_env [''s''] (heap ?s ! 0) (heap ?s1 ! 2) = Inr (1681 / 2)"
    unfolding heap0 heap1 len using imp ft' il by simp
  from w4 hyp4
  have "snd (benchmark VanilaMICE example_env 1 ?s 0 1 [''s'']) =
         Inr [\<lparr>iter = 0, time_seconds = time example_env (clock_reads ?s1) - time example_env (clock_reads ?s),
               loss = 1681 / 2\<rparr>]"
    by blast
  then have b3: "snd (benchmark VanilaMICE example_env 1 ?s 0 1 [''s'']) =
         Inr [\<lparr>iter = 0, time_seconds = 1, loss = 1681 / 2\<rparr>]"
    unfolding tm .
  note w5 = compute_loss_reads_every_retained_cell[where env = example_env and max_iter = 0
      and df_original = 0 and df_missing = 1 and s = ?s and drop_columns_loss = "[]" and v = VanilaMICE]
  have hyp5: "(0::int) \<le> 0 \<and> 1 < length (heap ?s) \<and>
       imputation_error (index (heap ?s ! 1)) (columns (heap ?s ! 1)) = None"
    unfolding heap1 len using imp by simp
  from w5 hyp5 have b4: "snd (benchmark VanilaMICE example_env 0 ?s 0 1 []) = Inr []"
    by blast
  from cl f member rows ft b1 b2 b3 b4 show ?thesis by blast
qed

section \<open>What the code does where the claims C2, C3 and C6 fail\<close>

text \<open>
  The column-level pass raises whenever its permutation is not empty, that is whenever
  the frame had a missing cell. Whenever the initial imputation returns, it has filled
  every missing cell of a numeric column with the mean of the present cells; it leaves
  every present cell as it is. With the default row labels 0, 1, ... (labels equal to
  positions) a fit of the cell-level pass never trains on the row it predicts.
\<close>

lemma for_loop_first_raises:
  assumes "\<And>x s. body x s = (s, Inl e)" and "xs \<noteq> []"
  shows "for_loop body xs s = (s, Inl e)"
  using assms by (cases xs) simp_all

lemma FastMICE_transform_raises:
  assumes "permutation env (draws s) (length nan_ids) \<noteq> []"
  shows "FastMICE_transform env m s df cm nan_ids i = (s\<lparr>draws := Suc (draws s)\<rparr>, Inl TypeError)"
  using for_loop_first_raises[of "FastMICE_body env df nan_ids" TypeError, OF FastMICE_body_raises assms]
  by (simp add: FastMICE_transform_def)

lemma imputed_columns_filled:
  "imputation_error idx cols = None \<Longrightarrow> j < length cols \<Longrightarrow>
   \<exists>col'. filled idx (snd (cols ! j)) = Inr col' \<and> imputed_columns idx cols ! j = (fst (cols ! j), col')"
proof (induction cols arbitrary: j)
  case Nil
  then show ?case by simp
next
  case (Cons p cols)
  obtain n col where p: "p = (n, col)" by (cases p)
  from Cons.prems(1) obtain col' where f: "filled idx col = Inr col'"
    and rest: "imputation_error idx cols = None"
    by (auto simp: p split: sum.splits)
  show ?case
  proof (cases j)
    case 0
    with f show ?thesis by (simp add: p)
  next
    case (Suc k)
    with Cons.prems(2) have "k < length cols" by simp
    from Cons.IH[OF rest this] f Suc show ?thesis by (simp add: p)
  qed
qed

lemma initial_imputation_numeric:
  assumes "imputation_error (index t) (columns t) = None"
      and "c < length (columns t)" and "snd (columns t ! c) = Numeric xs" and "r < length xs"
  shows "cell_at (initial_imputation t) r c =
           Number (case xs ! r of None \<Rightarrow> mean xs | Some y \<Rightarrow> Some y)"
  using imputed_columns_filled[OF assms(1,2)] assms(3,4)
  by (auto simp: cell_at_def initial_imputation_def filled_def fillna_scalar_def)

lemma filled_cell_present:
  assumes "filled idx col = Inr col'" and "r < length idx" and "column_length col = length idx"
      and "\<not> isna col r"
  shows "column_cell col' r = column_cell col r"
  using assms
  by (cases col)
     (auto simp: filled_def fillna_scalar_def fillna_series_def split: sum.splits option.splits)

lemma initial_imputation_present:
  assumes "c < length (columns t)" and "r < length (index t)"
      and "column_length (snd (columns t ! c)) = length (index t)"
      and "\<not> isna (snd (columns t ! c)) r"
  shows "cell_at (initial_imputation t) r c = cell_at t r c"
  using imputed_columns_nth[OF assms(1), of "index t"] assms(2-4)
  by (auto simp: cell_at_def initial_imputation_def dest: filled_cell_present)

lemma drop_index_default:
  assumes "drop_index (map int [0..<k]) [int r] = Inr train"
  shows "r \<notin> set train"
  using assms by (auto simp: drop_index_def split: if_splits)

lemma fit_log_setitem [simp]: "fit_log (setitem s df c col) = fit_log s"
  by (simp add: setitem_def)

lemma fit_log_iloc_setitem_cell:
  "iloc_setitem_cell s df r c vals = (s', res) \<Longrightarrow> fit_log s' = fit_log s"
  by (auto simp: iloc_setitem_cell_def split: if_splits sum.splits)

lemma fit_log_log_fit:
  "fit_log (log_fit s c train rows) = fit_log s @ [\<lparr>target = c, train_rows = train, predict_rows = rows\<rparr>]"
  by (simp add: log_fit_def)

lemma VanilaMICE_body_default_index:
  assumes "index (heap s ! df) = map int [0..<k]"
      and "VanilaMICE_body env df nan_ids i s = (s', res)"
  shows "fit_log s' = fit_log s \<or>
         (\<exists>c train rows. fit_log s' = fit_log s @ [\<lparr>target = c, train_rows = train, predict_rows = rows\<rparr>]
                        \<and> set train \<inter> set rows = {})"
proof (cases "getitem nan_ids (Position (int i))")
  case (Inl e)
  with assms(2) show ?thesis by (simp add: VanilaMICE_body_def)
next
  case (Inr p)
  obtain row_id col_id where p: "p = (row_id, col_id)" by (cases p)
  have disj: "set train \<inter> set (iloc_slice row_id (row_id + 1) k) = {}"
    if "drop_index (map int [0..<k]) [int row_id] = Inr train" for train
  proof -
    have "set (iloc_slice row_id (row_id + 1) k) \<subseteq> {row_id}"
      by (auto simp: iloc_slice_def)
    with drop_index_default[OF that] show ?thesis by blast
  qed
  have lg: "fit_log s2 = fit_log s @ [\<lparr>target = col_id, train_rows = train, predict_rows = rows\<rparr>]"
    if "iloc_setitem_cell (log_fit s col_id train rows) df row_id col_id vals = (s2, r)"
    for train rows vals s2 r
    using fit_log_iloc_setitem_cell[OF that] by (simp add: fit_log_log_fit)
  from assms(2) show ?thesis
    unfolding VanilaMICE_body_def Inr p
    by (auto simp: Let_def assms(1) fit_log_log_fit split: if_splits sum.splits dest!: lg disj)
qed

end
